theory Spec2Isabelle
  imports Main "HOL-Library.Word" "HOL-Library.List_Lexorder"
begin

unbundle bit_operations_syntax

section \<open>Schema registry and index-field encoder of skywalking-banyandb\<close>

text \<open>
  A shallow embedding of \<^verbatim>\<open>banyand/metadata/schema/etcd.go\<close> (key codec, event dispatch,
  get/update/delete against the etcd key-value client) and of \<^verbatim>\<open>MarshalIndexFieldValue\<close>
  (the write-path encoder).  Go strings are byte sequences and are modelled as \<open>string\<close>
  (a \<open>char\<close> is one byte); \<^verbatim>\<open>[]byte\<close> is a list of 8-bit words, compared
  byte-lexicographically (unsigned) by the list order; \<^verbatim>\<open>int64\<close> is a 64-bit word read
  as two's complement.
\<close>

subsection \<open>Bytes, strings and errors\<close>

type_synonym byte = "8 word"
type_synonym bytes = "byte list"
type_synonym int64 = "64 word"

text \<open>The conversions \<^verbatim>\<open>[]byte(s)\<close> and \<^verbatim>\<open>string(bb)\<close>.\<close>

definition bytes_of_string :: "string \<Rightarrow> bytes" where
  "bytes_of_string s = map of_char s"

definition string_of_bytes :: "bytes \<Rightarrow> string" where
  "string_of_bytes bb = map (\<lambda>b. char_of (unat b)) bb"

text \<open>
  The package-level error values of the two source files, \<^verbatim>\<open>errors.Wrap\<close>, the errors
  that the external libraries (protobuf, the etcd client) hand back, and the run-time
  panics of the modelled code.
\<close>

datatype error =
    ErrGroupAbsent
  | ErrEntityNotFound
  | ErrUnexpectedNumberOfEntities
  | ErrConcurrentModification
  | ErrUnsupportedTagForIndexField
  | ErrUnsupportedKind
  | ErrExternal string
  | Wrap error string
  | PanicIndexOutOfRange
  | PanicNilDereference

subsection \<open>Write-path encoder\<close>

text \<open>
  Modelled from the spec: \<^verbatim>\<open>convert.Int64ToBytes\<close> (package \<^verbatim>\<open>pkg/convert\<close> is not among
  the sources).  The spec asks for a fixed-width big-endian 8-byte encoding whose
  byte-lexicographic order matches the numeric order of the \<^verbatim>\<open>int64\<close>: the big-endian
  bytes of the value offset by \<open>2 ^ 63\<close> (the two's complement bits with the sign bit
  flipped).  \<open>big_endian n u\<close> is the \<open>n\<close> low-order bytes of \<open>u\<close>, most significant first.
\<close>

fun big_endian :: "nat \<Rightarrow> nat \<Rightarrow> bytes" where
  "big_endian 0 u = []"
| "big_endian (Suc n) u = big_endian n (u div 256) @ [of_nat (u mod 256)]"

definition Int64ToBytes :: "int64 \<Rightarrow> bytes" where
  "Int64ToBytes i = big_endian 8 (nat (sint i + 2 ^ 63))"

text \<open>
  The other reading of "big-endian": the two's complement bits as they are, without the
  offset.  It is kept only to record that this reading is not order-preserving.
\<close>

definition twos_complement_big_endian :: "int64 \<Rightarrow> bytes" where
  "twos_complement_big_endian i = big_endian 8 (unat i)"

text \<open>
  The generated protobuf types of \<^verbatim>\<open>modelv1.TagValue\<close>: a oneof whose message-typed
  variants hold a pointer that may be nil; the getters are nil-safe and return the zero
  value then.
\<close>

datatype modelv1_Str = Str (Str_Value: string)
datatype modelv1_Int = Int64 (Int_Value: int64)
datatype modelv1_StrArray = StrArray (StrArray_Value: "string list")
datatype modelv1_IntArray = IntArray (IntArray_Value: "int64 list")

datatype isTagValue_Value =
    TagValue_Null
  | TagValue_Str "modelv1_Str option"
  | TagValue_StrArray "modelv1_StrArray option"
  | TagValue_Int "modelv1_Int option"
  | TagValue_IntArray "modelv1_IntArray option"
  | TagValue_BinaryData bytes

datatype TagValue = TagValue (TagValue_Value: "isTagValue_Value option")

definition TagValue_GetValue :: "TagValue option \<Rightarrow> isTagValue_Value option" where
  "TagValue_GetValue x = (case x of None \<Rightarrow> None | Some t \<Rightarrow> TagValue_Value t)"

definition Str_GetValue :: "modelv1_Str option \<Rightarrow> string" where
  "Str_GetValue x = (case x of None \<Rightarrow> [] | Some s \<Rightarrow> Str_Value s)"

definition Int_GetValue :: "modelv1_Int option \<Rightarrow> int64" where
  "Int_GetValue x = (case x of None \<Rightarrow> 0 | Some i \<Rightarrow> Int_Value i)"

definition StrArray_GetValue :: "modelv1_StrArray option \<Rightarrow> string list" where
  "StrArray_GetValue x = (case x of None \<Rightarrow> [] | Some a \<Rightarrow> StrArray_Value a)"

definition IntArray_GetValue :: "modelv1_IntArray option \<Rightarrow> int64 list" where
  "IntArray_GetValue x = (case x of None \<Rightarrow> [] | Some a \<Rightarrow> IntArray_Value a)"

text \<open>
  \<^verbatim>\<open>strings.Join\<close> of the Go standard library: nothing for no element, otherwise the first
  element followed by separator and element for each further one.
\<close>

fun strings_Join :: "string list \<Rightarrow> string \<Rightarrow> string" where
  "strings_Join [] sep = []"
| "strings_Join (e # es) sep = foldl (\<lambda>b s. b @ sep @ s) e es"

definition strDelimiter :: string where
  "strDelimiter = [CHR 0x0A]"

text \<open>
  \<^verbatim>\<open>MarshalIndexFieldValue\<close>: the type switch on the oneof; the int64-array case writes
  each element's encoding to a buffer in turn; a nil value and the null variant fall
  through to the error.
\<close>

definition MarshalIndexFieldValue :: "TagValue option \<Rightarrow> error + bytes" where
  "MarshalIndexFieldValue tagValue =
     (case TagValue_GetValue tagValue of
        Some (TagValue_Str x) \<Rightarrow> Inr (bytes_of_string (Str_GetValue x))
      | Some (TagValue_Int x) \<Rightarrow> Inr (Int64ToBytes (Int_GetValue x))
      | Some (TagValue_StrArray x) \<Rightarrow>
          Inr (bytes_of_string (strings_Join (StrArray_GetValue x) strDelimiter))
      | Some (TagValue_IntArray x) \<Rightarrow>
          Inr (foldl (\<lambda>buf i. buf @ Int64ToBytes i) [] (IntArray_GetValue x))
      | Some (TagValue_BinaryData x) \<Rightarrow> Inr x
      | _ \<Rightarrow> Inl ErrUnsupportedTagForIndexField)"

text \<open>
  The reference encoding, following the words of the specification (section 4.4): the
  six variants of a tag value, a nil pointer read as the variant's zero value.
\<close>

fun join_newline :: "string list \<Rightarrow> string" where
  "join_newline [] = []"
| "join_newline [x] = x"
| "join_newline (x # y # ys) = x @ CHR 0x0A # join_newline (y # ys)"

fun EncodeIndexField_Value :: "isTagValue_Value \<Rightarrow> error + bytes" where
  "EncodeIndexField_Value TagValue_Null = Inl ErrUnsupportedTagForIndexField"
| "EncodeIndexField_Value (TagValue_Str None) = Inr []"
| "EncodeIndexField_Value (TagValue_Str (Some (Str s))) = Inr (map of_char s)"
| "EncodeIndexField_Value (TagValue_Int None) = Inr (Int64ToBytes 0)"
| "EncodeIndexField_Value (TagValue_Int (Some (Int64 i))) = Inr (Int64ToBytes i)"
| "EncodeIndexField_Value (TagValue_StrArray None) = Inr []"
| "EncodeIndexField_Value (TagValue_StrArray (Some (StrArray ss))) =
     Inr (map of_char (join_newline ss))"
| "EncodeIndexField_Value (TagValue_IntArray None) = Inr []"
| "EncodeIndexField_Value (TagValue_IntArray (Some (IntArray ns))) =
     Inr (concat (map Int64ToBytes ns))"
| "EncodeIndexField_Value (TagValue_BinaryData b) = Inr b"

fun EncodeIndexField :: "TagValue option \<Rightarrow> error + bytes" where
  "EncodeIndexField None = Inl ErrUnsupportedTagForIndexField"
| "EncodeIndexField (Some (TagValue None)) = Inl ErrUnsupportedTagForIndexField"
| "EncodeIndexField (Some (TagValue (Some v))) = EncodeIndexField_Value v"

subsection \<open>Entity kinds, entities and the key codec\<close>

text \<open>
  Modelled from the spec: the \<^verbatim>\<open>Kind\<close> constants and \<^verbatim>\<open>KindMask\<close> (declared in
  \<^verbatim>\<open>schema.go\<close>, which is not among the sources).  \<^verbatim>\<open>Kind\<close> is a Go \<^verbatim>\<open>int\<close> used as a
  bit mask over the five entity kinds: one bit per kind, \<^verbatim>\<open>KindMask\<close> their union.
\<close>

type_synonym Kind = "64 word"

definition KindGroup :: Kind where "KindGroup = 1"
definition KindStream :: Kind where "KindStream = 2"
definition KindMeasure :: Kind where "KindMeasure = 4"
definition KindIndexRuleBinding :: Kind where "KindIndexRuleBinding = 8"
definition KindIndexRule :: Kind where "KindIndexRule = 16"

definition KindMask :: Kind where
  "KindMask = KindGroup OR KindStream OR KindMeasure OR KindIndexRuleBinding OR KindIndexRule"

text \<open>
  \<^verbatim>\<open>commonv1.Metadata\<close> (the protobuf message of the identity of an entity) with its
  nil-safe getters, and an entity message: every one of \<^verbatim>\<open>Group\<close>, \<^verbatim>\<open>Stream\<close>, \<^verbatim>\<open>Measure\<close>,
  \<^verbatim>\<open>IndexRule\<close> and \<^verbatim>\<open>IndexRuleBinding\<close> has a \<^verbatim>\<open>metadata\<close> field, a pointer that may be
  nil, and fields of its own, which the registry never looks at (type \<open>'b\<close>).
\<close>

record commonv1_Metadata =
  md_Group :: string
  md_Name :: string
  md_Id :: "32 word"
  md_CreateRevision :: int64
  md_ModRevision :: int64

definition GetGroup_md :: "commonv1_Metadata option \<Rightarrow> string" where
  "GetGroup_md x = (case x of None \<Rightarrow> [] | Some m \<Rightarrow> md_Group m)"

definition GetName_md :: "commonv1_Metadata option \<Rightarrow> string" where
  "GetName_md x = (case x of None \<Rightarrow> [] | Some m \<Rightarrow> md_Name m)"

record 'b Message =
  GetMetadata :: "commonv1_Metadata option"
  Fields :: 'b

text \<open>
  \<^verbatim>\<open>TypeMeta\<close> and \<^verbatim>\<open>Metadata\<close>, the envelope of an entity: kind, name, group and the
  payload \<^verbatim>\<open>Spec\<close> (nil in the envelopes that the delete operations build).
\<close>

record TypeMeta =
  Kind :: Kind
  Name :: string
  Group :: string

record 'b Metadata = TypeMeta +
  Spec :: "'b Message option"

definition GroupsKeyPrefix :: string where "GroupsKeyPrefix = ''/groups/''"
definition GroupMetadataKey :: string where "GroupMetadataKey = ''/__meta_group__''"
definition StreamKeyPrefix :: string where "StreamKeyPrefix = ''/streams/''"
definition IndexRuleBindingKeyPrefix :: string where
  "IndexRuleBindingKeyPrefix = ''/index-rule-bindings/''"
definition IndexRuleKeyPrefix :: string where "IndexRuleKeyPrefix = ''/index-rules/''"
definition MeasureKeyPrefix :: string where "MeasureKeyPrefix = ''/measures/''"

definition formatKey :: "string \<Rightarrow> commonv1_Metadata option \<Rightarrow> string" where
  "formatKey entityPrefix metadata =
     GroupsKeyPrefix @ GetGroup_md metadata @ entityPrefix @ GetName_md metadata"

definition formatGroupKey :: "string \<Rightarrow> string" where
  "formatGroupKey grp = GroupsKeyPrefix @ grp @ GroupMetadataKey"

definition formatIndexRuleKey :: "commonv1_Metadata option \<Rightarrow> string" where
  "formatIndexRuleKey metadata = formatKey IndexRuleKeyPrefix metadata"

definition formatIndexRuleBindingKey :: "commonv1_Metadata option \<Rightarrow> string" where
  "formatIndexRuleBindingKey metadata = formatKey IndexRuleBindingKeyPrefix metadata"

definition formatStreamKey :: "commonv1_Metadata option \<Rightarrow> string" where
  "formatStreamKey metadata = formatKey StreamKeyPrefix metadata"

definition formatMeasureKey :: "commonv1_Metadata option \<Rightarrow> string" where
  "formatMeasureKey metadata = formatKey MeasureKeyPrefix metadata"

definition listPrefixesForEntity :: "string \<Rightarrow> string \<Rightarrow> string" where
  "listPrefixesForEntity grp entityPrefix = GroupsKeyPrefix @ grp @ entityPrefix"

text \<open>
  \<^verbatim>\<open>incrementLastByte\<close>: the last byte is incremented as a \<^verbatim>\<open>byte\<close>, so \<open>0xFF\<close> wraps to
  \<open>0x00\<close>; on the empty string the index \<open>-1\<close> is out of range and the code panics.
\<close>

definition incrementLastByte :: "string \<Rightarrow> error + string" where
  "incrementLastByte key =
     (let bb = bytes_of_string key
      in if bb = [] then Inl PanicIndexOutOfRange
         else Inr (string_of_bytes (bb[length bb - 1 := bb ! (length bb - 1) + 1])))"

text \<open>\<^verbatim>\<open>strings.HasPrefix\<close>.\<close>

definition HasPrefix :: "string \<Rightarrow> string \<Rightarrow> bool" where
  "HasPrefix s prefix = (take (length prefix) s = prefix)"

text \<open>
  Modelled from the spec: \<^verbatim>\<open>Metadata.Key\<close> (in \<^verbatim>\<open>schema.go\<close>, which is not among the
  sources).  It maps the envelope to its key with the format functions above: a group
  to \<^verbatim>\<open>"/groups/" + name + "/__meta_group__"\<close> (\<^verbatim>\<open>UpdateGroup\<close> puts the group's name in
  \<^verbatim>\<open>Name\<close> and \<^verbatim>\<open>GetGroup\<close> reads the key of that name), the other kinds to
  \<^verbatim>\<open>"/groups/" + group + "/<entity-prefix>/" + name\<close>; any other kind is an error.
\<close>

definition Metadata_Key :: "'a TypeMeta_scheme \<Rightarrow> error + string" where
  "Metadata_Key m =
     (let md = Some \<lparr>md_Group = Group m, md_Name = Name m, md_Id = 0,
                     md_CreateRevision = 0, md_ModRevision = 0\<rparr>
      in if Kind m = KindGroup then Inr (formatGroupKey (Name m))
         else if Kind m = KindMeasure then Inr (formatMeasureKey md)
         else if Kind m = KindStream then Inr (formatStreamKey md)
         else if Kind m = KindIndexRule then Inr (formatIndexRuleKey md)
         else if Kind m = KindIndexRuleBinding then Inr (formatIndexRuleBindingKey md)
         else Inl ErrUnsupportedKind)"

subsection \<open>The key-value substrate\<close>

text \<open>
  The etcd client (\<^verbatim>\<open>clientv3.KV\<close>) is an external collaborator.  Its state is modelled as
  the list of stored records (\<^verbatim>\<open>mvccpb.KeyValue\<close>) and the store revision; the operations
  the registry calls follow etcd's documented behaviour: a put creates the key at the
  new revision or keeps its create revision and bumps its mod revision and version; a
  transaction compares first and applies its put only if the comparison holds, in one
  step; the mod revision of an absent key compares as \<open>0\<close>; a delete that removes
  nothing changes nothing.  The list may hold several records under one key: etcd never
  produces that, but the registry guards against a response with more than one record.
  The in-memory store never fails, so every operation returns \<open>Inr\<close>; the callers still
  have their error branch.
\<close>

record KeyValue =
  kv_Key :: string
  kv_CreateRevision :: int64
  kv_ModRevision :: int64
  kv_Version :: int64
  kv_Value :: bytes

record store =
  kvs :: "KeyValue list"
  revision :: int64

record GetResponse =
  Count :: int
  Kvs :: "KeyValue list"

record TxnResponse =
  Succeeded :: bool

record DeleteResponse =
  Deleted :: int
  PrevKvs :: "KeyValue list"

definition matching :: "store \<Rightarrow> string \<Rightarrow> KeyValue list" where
  "matching s key = filter (\<lambda>r. kv_Key r = key) (kvs s)"

definition kv_Get :: "store \<Rightarrow> string \<Rightarrow> error + GetResponse" where
  "kv_Get s key = Inr \<lparr>Count = int (length (matching s key)), Kvs = matching s key\<rparr>"

definition store_put :: "store \<Rightarrow> string \<Rightarrow> bytes \<Rightarrow> store" where
  "store_put s key val =
     (let r = revision s + 1
      in if matching s key = []
         then \<lparr>kvs = kvs s @ [\<lparr>kv_Key = key, kv_CreateRevision = r, kv_ModRevision = r,
                                kv_Version = 1, kv_Value = val\<rparr>],
               revision = r\<rparr>
         else \<lparr>kvs = map (\<lambda>x. if kv_Key x = key
                                then x\<lparr>kv_ModRevision := r, kv_Version := kv_Version x + 1,
                                       kv_Value := val\<rparr>
                                else x) (kvs s),
               revision = r\<rparr>)"

definition kv_Put :: "store \<Rightarrow> string \<Rightarrow> bytes \<Rightarrow> error + store" where
  "kv_Put s key val = Inr (store_put s key val)"

definition key_ModRevision :: "store \<Rightarrow> string \<Rightarrow> int64" where
  "key_ModRevision s key = (case matching s key of [] \<Rightarrow> 0 | x # _ \<Rightarrow> kv_ModRevision x)"

text \<open>
  \<^verbatim>\<open>Txn().If(Compare(ModRevision(key), "=", modRevision)).Then(OpPut(key, val)).Commit()\<close>
\<close>

definition kv_Txn_If_ModRevision_Then_Put ::
  "store \<Rightarrow> string \<Rightarrow> int64 \<Rightarrow> bytes \<Rightarrow> error + TxnResponse \<times> store" where
  "kv_Txn_If_ModRevision_Then_Put s key modRevision val =
     (if key_ModRevision s key = modRevision
      then Inr (\<lparr>Succeeded = True\<rparr>, store_put s key val)
      else Inr (\<lparr>Succeeded = False\<rparr>, s))"

text \<open>\<^verbatim>\<open>Delete(key, WithPrevKV())\<close>\<close>

definition kv_Delete :: "store \<Rightarrow> string \<Rightarrow> error + DeleteResponse \<times> store" where
  "kv_Delete s key =
     (let prev = matching s key
      in Inr (\<lparr>Deleted = int (length prev), PrevKvs = prev\<rparr>,
              if prev = [] then s
              else \<lparr>kvs = filter (\<lambda>x. kv_Key x \<noteq> key) (kvs s), revision = revision s + 1\<rparr>))"

text \<open>
  A key lies in the half-open range from \<open>key\<close> to \<open>rangeEnd\<close> when it is at least
  \<open>key\<close> and below \<open>rangeEnd\<close> in the byte-lexicographic order;
  \<^verbatim>\<open>Delete(key, WithRange(end))\<close> removes the records in that range.
\<close>

definition inRange :: "string \<Rightarrow> string \<Rightarrow> string \<Rightarrow> bool" where
  "inRange key rangeEnd k =
     (bytes_of_string key \<le> bytes_of_string k \<and> bytes_of_string k < bytes_of_string rangeEnd)"

definition kv_Delete_WithRange ::
  "store \<Rightarrow> string \<Rightarrow> string \<Rightarrow> error + DeleteResponse \<times> store" where
  "kv_Delete_WithRange s key rangeEnd =
     (let prev = filter (\<lambda>x. inRange key rangeEnd (kv_Key x)) (kvs s)
      in Inr (\<lparr>Deleted = int (length prev), PrevKvs = []\<rparr>,
              if prev = [] then s
              else \<lparr>kvs = filter (\<lambda>x. \<not> inRange key rangeEnd (kv_Key x)) (kvs s),
                    revision = revision s + 1\<rparr>))"

subsection \<open>Protobuf, event handlers and the registry\<close>

text \<open>
  The protobuf wire format and two helpers of the envelope that live in \<^verbatim>\<open>schema.go\<close>
  (not among the sources) are parameters of the model: \<^verbatim>\<open>proto.Marshal\<close>,
  \<^verbatim>\<open>proto.Unmarshal\<close> into the message type of a kind (which \<^verbatim>\<open>Metadata.Unmarshal\<close> does as
  well), and \<^verbatim>\<open>Metadata.Equal\<close>, the semantic equality of the envelope's payload with a
  decoded message.  Every theorem below holds for every choice of them.
\<close>

record 'b proto =
  Marshal :: "'b Message \<Rightarrow> error + bytes"
  Unmarshal :: "Kind \<Rightarrow> bytes \<Rightarrow> error + 'b Message"
  Equal :: "'b Metadata \<Rightarrow> 'b Message \<Rightarrow> bool"

text \<open>
  A registered handler is an interest mask and the handler object (type \<open>'h\<close>); the calls
  that a dispatch makes on the handler objects are recorded in order.
\<close>

record 'h eventHandler =
  interestKeys :: Kind
  handler :: 'h

definition InterestOf :: "'h eventHandler \<Rightarrow> Kind \<Rightarrow> bool" where
  "InterestOf eh kind = (KindMask AND kind AND interestKeys eh \<noteq> 0)"

record 'h etcdSchemaRegistry =
  kv :: store
  handlers :: "'h eventHandler list"

datatype ('h, 'b) call =
    OnAddOrUpdate 'h "'b Metadata"
  | OnDelete 'h "'b Metadata"

definition RegisterHandler ::
  "'h etcdSchemaRegistry \<Rightarrow> Kind \<Rightarrow> 'h \<Rightarrow> 'h etcdSchemaRegistry" where
  "RegisterHandler e kind h =
     e\<lparr>handlers := handlers e @ [\<lparr>interestKeys = kind, handler = h\<rparr>]\<rparr>"

fun dispatchUpdate :: "'h eventHandler list \<Rightarrow> 'b Metadata \<Rightarrow> ('h, 'b) call list" where
  "dispatchUpdate [] metadata = []"
| "dispatchUpdate (h # hs) metadata =
     (if InterestOf h (Kind metadata)
      then OnAddOrUpdate (handler h) metadata # dispatchUpdate hs metadata
      else dispatchUpdate hs metadata)"

fun dispatchDelete :: "'h eventHandler list \<Rightarrow> 'b Metadata \<Rightarrow> ('h, 'b) call list" where
  "dispatchDelete [] metadata = []"
| "dispatchDelete (h # hs) metadata =
     (if InterestOf h (Kind metadata)
      then OnDelete (handler h) metadata # dispatchDelete hs metadata
      else dispatchDelete hs metadata)"

definition notifyUpdate :: "'h etcdSchemaRegistry \<Rightarrow> 'b Metadata \<Rightarrow> ('h, 'b) call list" where
  "notifyUpdate e metadata = dispatchUpdate (handlers e) metadata"

definition notifyDelete :: "'h etcdSchemaRegistry \<Rightarrow> 'b Metadata \<Rightarrow> ('h, 'b) call list" where
  "notifyDelete e metadata = dispatchDelete (handlers e) metadata"

text \<open>
  \<^verbatim>\<open>get\<close>: the kind stands for the type of the message that the caller passes in.  The
  revisions are assigned through \<^verbatim>\<open>GetMetadata()\<close>, which is nil when the decoded message
  has no metadata: the assignment panics then.
\<close>

definition get :: "'b proto \<Rightarrow> 'h etcdSchemaRegistry \<Rightarrow> string \<Rightarrow> Kind \<Rightarrow> error + 'b Message" where
  "get p e key kind =
     (case kv_Get (kv e) key of
        Inl err \<Rightarrow> Inl err
      | Inr resp \<Rightarrow>
          if Count resp = 0 then Inl ErrEntityNotFound
          else if Count resp > 1 then Inl ErrUnexpectedNumberOfEntities
          else (case Kvs resp of
                  [] \<Rightarrow> Inl PanicIndexOutOfRange
                | kv0 # _ \<Rightarrow>
                    (case Unmarshal p kind (kv_Value kv0) of
                       Inl err \<Rightarrow> Inl err
                     | Inr message \<Rightarrow>
                         (case GetMetadata message of
                            None \<Rightarrow> Inl PanicNilDereference
                          | Some md \<Rightarrow>
                              Inr (message\<lparr>GetMetadata :=
                                     Some (md\<lparr>md_CreateRevision := kv_CreateRevision kv0,
                                              md_ModRevision := kv_ModRevision kv0\<rparr>)\<rparr>)))))"

definition GetGroup :: "'b proto \<Rightarrow> 'h etcdSchemaRegistry \<Rightarrow> string \<Rightarrow> error + 'b Message" where
  "GetGroup p e grp = get p e (formatGroupKey grp) KindGroup"

definition GetMeasure ::
  "'b proto \<Rightarrow> 'h etcdSchemaRegistry \<Rightarrow> commonv1_Metadata option \<Rightarrow> error + 'b Message" where
  "GetMeasure p e metadata = get p e (formatMeasureKey metadata) KindMeasure"

definition GetStream ::
  "'b proto \<Rightarrow> 'h etcdSchemaRegistry \<Rightarrow> commonv1_Metadata option \<Rightarrow> error + 'b Message" where
  "GetStream p e metadata = get p e (formatStreamKey metadata) KindStream"

definition GetIndexRuleBinding ::
  "'b proto \<Rightarrow> 'h etcdSchemaRegistry \<Rightarrow> commonv1_Metadata option \<Rightarrow> error + 'b Message" where
  "GetIndexRuleBinding p e metadata =
     get p e (formatIndexRuleBindingKey metadata) KindIndexRuleBinding"

definition GetIndexRule ::
  "'b proto \<Rightarrow> 'h etcdSchemaRegistry \<Rightarrow> commonv1_Metadata option \<Rightarrow> error + 'b Message" where
  "GetIndexRule p e metadata = get p e (formatIndexRuleKey metadata) KindIndexRule"

text \<open>
  \<^verbatim>\<open>update\<close> makes two round trips to the store: the read, and the conditional write or
  the plain put.  Other clients of the store may write in between; \<open>interfere\<close> is what
  they do to the store between the two round trips (the identity when there is none).
  The result is the returned error (\<open>None\<close> for \<^verbatim>\<open>nil\<close>), the registry with the store as
  this call leaves it, and the handler calls made.  A nil \<^verbatim>\<open>Spec\<close> makes the conversion
  to \<^verbatim>\<open>proto.Message\<close> panic.
\<close>

definition update ::
  "'b proto \<Rightarrow> (store \<Rightarrow> store) \<Rightarrow> 'h etcdSchemaRegistry \<Rightarrow> 'b Metadata
     \<Rightarrow> error option \<times> 'h etcdSchemaRegistry \<times> ('h, 'b) call list" where
  "update p interfere e metadata =
     (case Metadata_Key metadata of
        Inl err \<Rightarrow> (Some err, e, [])
      | Inr key \<Rightarrow>
     (case kv_Get (kv e) key of
        Inl err \<Rightarrow> (Some err, e, [])
      | Inr getResp \<Rightarrow>
          if Count getResp > 1 then (Some ErrUnexpectedNumberOfEntities, e, [])
          else
     (case Spec metadata of
        None \<Rightarrow> (Some PanicNilDereference, e, [])
      | Some spec \<Rightarrow>
     (case Marshal p spec of
        Inl err \<Rightarrow> (Some err, e, [])
      | Inr val \<Rightarrow>
          if Count getResp > 0 then
            (case Kvs getResp of
               [] \<Rightarrow> (Some PanicIndexOutOfRange, e, [])
             | kv0 # _ \<Rightarrow>
            (case Unmarshal p (Kind metadata) (kv_Value kv0) of
               Inl innerErr \<Rightarrow> (Some innerErr, e, [])
             | Inr existingVal \<Rightarrow>
                 if Equal p metadata existingVal then (None, e, [])
                 else
                   (case kv_Txn_If_ModRevision_Then_Put (interfere (kv e)) key
                           (kv_ModRevision kv0) val of
                      Inl txnErr \<Rightarrow> (Some txnErr, e\<lparr>kv := interfere (kv e)\<rparr>, [])
                    | Inr (txnResp, s') \<Rightarrow>
                        if \<not> Succeeded txnResp
                        then (Some ErrConcurrentModification, e\<lparr>kv := s'\<rparr>, [])
                        else (None, e\<lparr>kv := s'\<rparr>, notifyUpdate e metadata))))
          else
            (case kv_Put (interfere (kv e)) key val of
               Inl err \<Rightarrow> (Some err, e\<lparr>kv := interfere (kv e)\<rparr>, [])
             | Inr s' \<Rightarrow> (None, e\<lparr>kv := s'\<rparr>, notifyUpdate e metadata))))))"

definition UpdateGroup ::
  "'b proto \<Rightarrow> (store \<Rightarrow> store) \<Rightarrow> 'h etcdSchemaRegistry \<Rightarrow> 'b Message
     \<Rightarrow> error option \<times> 'h etcdSchemaRegistry \<times> ('h, 'b) call list" where
  "UpdateGroup p interfere e grp =
     update p interfere e
       \<lparr>Kind = KindGroup, Name = GetName_md (GetMetadata grp), Group = [], Spec = Some grp\<rparr>"

definition UpdateMeasure ::
  "'b proto \<Rightarrow> (store \<Rightarrow> store) \<Rightarrow> 'h etcdSchemaRegistry \<Rightarrow> 'b Message
     \<Rightarrow> error option \<times> 'h etcdSchemaRegistry \<times> ('h, 'b) call list" where
  "UpdateMeasure p interfere e msr =
     update p interfere e
       \<lparr>Kind = KindMeasure, Name = GetName_md (GetMetadata msr),
        Group = GetGroup_md (GetMetadata msr), Spec = Some msr\<rparr>"

definition UpdateStream ::
  "'b proto \<Rightarrow> (store \<Rightarrow> store) \<Rightarrow> 'h etcdSchemaRegistry \<Rightarrow> 'b Message
     \<Rightarrow> error option \<times> 'h etcdSchemaRegistry \<times> ('h, 'b) call list" where
  "UpdateStream p interfere e stream =
     update p interfere e
       \<lparr>Kind = KindStream, Name = GetName_md (GetMetadata stream),
        Group = GetGroup_md (GetMetadata stream), Spec = Some stream\<rparr>"

definition UpdateIndexRuleBinding ::
  "'b proto \<Rightarrow> (store \<Rightarrow> store) \<Rightarrow> 'h etcdSchemaRegistry \<Rightarrow> 'b Message
     \<Rightarrow> error option \<times> 'h etcdSchemaRegistry \<times> ('h, 'b) call list" where
  "UpdateIndexRuleBinding p interfere e indexRuleBinding =
     update p interfere e
       \<lparr>Kind = KindIndexRuleBinding, Name = GetName_md (GetMetadata indexRuleBinding),
        Group = GetGroup_md (GetMetadata indexRuleBinding), Spec = Some indexRuleBinding\<rparr>"

definition UpdateIndexRule ::
  "'b proto \<Rightarrow> (store \<Rightarrow> store) \<Rightarrow> 'h etcdSchemaRegistry \<Rightarrow> 'b Message
     \<Rightarrow> error option \<times> 'h etcdSchemaRegistry \<times> ('h, 'b) call list" where
  "UpdateIndexRule p interfere e indexRule =
     update p interfere e
       \<lparr>Kind = KindIndexRule, Name = GetName_md (GetMetadata indexRule),
        Group = GetGroup_md (GetMetadata indexRule), Spec = Some indexRule\<rparr>"

text \<open>
  \<^verbatim>\<open>delete\<close> returns \<^verbatim>\<open>(bool, error)\<close>, the bool being false with every error: \<open>Inl err\<close> is
  \<^verbatim>\<open>(false, err)\<close> and \<open>Inr b\<close> is \<^verbatim>\<open>(b, nil)\<close>.  The switch on the kind picks the message
  type to decode the previous value into; for any other kind the message stays nil and
  decoding into it panics.  A decoding error only suppresses the notification.
\<close>

definition delete ::
  "'b proto \<Rightarrow> 'h etcdSchemaRegistry \<Rightarrow> 'b Metadata
     \<Rightarrow> (error + bool) \<times> 'h etcdSchemaRegistry \<times> ('h, 'b) call list" where
  "delete p e metadata =
     (case Metadata_Key metadata of
        Inl err \<Rightarrow> (Inl err, e, [])
      | Inr key \<Rightarrow>
     (case kv_Delete (kv e) key of
        Inl err \<Rightarrow> (Inl err, e, [])
      | Inr (resp, s') \<Rightarrow>
          if Deleted resp = 1 then
            (if Kind metadata = KindMeasure \<or> Kind metadata = KindStream
                \<or> Kind metadata = KindIndexRuleBinding \<or> Kind metadata = KindIndexRule
             then
               (case PrevKvs resp of
                  [] \<Rightarrow> (Inl PanicIndexOutOfRange, e\<lparr>kv := s'\<rparr>, [])
                | kv0 # _ \<Rightarrow>
                    (case Unmarshal p (Kind metadata) (kv_Value kv0) of
                       Inr message \<Rightarrow>
                         (Inr True, e\<lparr>kv := s'\<rparr>,
                          notifyDelete e \<lparr>Kind = Kind metadata, Name = Name metadata,
                                          Group = Group metadata, Spec = Some message\<rparr>)
                     | Inl unmarshalErr \<Rightarrow> (Inr True, e\<lparr>kv := s'\<rparr>, [])))
             else (Inl PanicNilDereference, e\<lparr>kv := s'\<rparr>, []))
          else (Inr False, e\<lparr>kv := s'\<rparr>, [])))"

definition DeleteMeasure ::
  "'b proto \<Rightarrow> 'h etcdSchemaRegistry \<Rightarrow> commonv1_Metadata option
     \<Rightarrow> (error + bool) \<times> 'h etcdSchemaRegistry \<times> ('h, 'b) call list" where
  "DeleteMeasure p e metadata =
     delete p e \<lparr>Kind = KindMeasure, Name = GetName_md metadata, Group = GetGroup_md metadata,
                 Spec = None\<rparr>"

definition DeleteStream ::
  "'b proto \<Rightarrow> 'h etcdSchemaRegistry \<Rightarrow> commonv1_Metadata option
     \<Rightarrow> (error + bool) \<times> 'h etcdSchemaRegistry \<times> ('h, 'b) call list" where
  "DeleteStream p e metadata =
     delete p e \<lparr>Kind = KindStream, Name = GetName_md metadata, Group = GetGroup_md metadata,
                 Spec = None\<rparr>"

definition DeleteIndexRuleBinding ::
  "'b proto \<Rightarrow> 'h etcdSchemaRegistry \<Rightarrow> commonv1_Metadata option
     \<Rightarrow> (error + bool) \<times> 'h etcdSchemaRegistry \<times> ('h, 'b) call list" where
  "DeleteIndexRuleBinding p e metadata =
     delete p e \<lparr>Kind = KindIndexRuleBinding, Name = GetName_md metadata,
                 Group = GetGroup_md metadata, Spec = None\<rparr>"

definition DeleteIndexRule ::
  "'b proto \<Rightarrow> 'h etcdSchemaRegistry \<Rightarrow> commonv1_Metadata option
     \<Rightarrow> (error + bool) \<times> 'h etcdSchemaRegistry \<times> ('h, 'b) call list" where
  "DeleteIndexRule p e metadata =
     delete p e \<lparr>Kind = KindIndexRule, Name = GetName_md metadata,
                 Group = GetGroup_md metadata, Spec = None\<rparr>"

text \<open>
  \<^verbatim>\<open>DeleteGroup\<close> reads the group first and hands a failure of that read back, wrapped
  with the group name; then it deletes the range of the keys under the group's prefix
  and notifies at the group level.
\<close>

definition DeleteGroup ::
  "'b proto \<Rightarrow> 'h etcdSchemaRegistry \<Rightarrow> string
     \<Rightarrow> (error + bool) \<times> 'h etcdSchemaRegistry \<times> ('h, 'b) call list" where
  "DeleteGroup p e grp =
     (case GetGroup p e grp of
        Inl err \<Rightarrow> (Inl (Wrap err grp), e, [])
      | Inr g \<Rightarrow>
          (let keyPrefix = GroupsKeyPrefix @ GetName_md (GetMetadata g) @ ''/''
           in case incrementLastByte keyPrefix of
                Inl err \<Rightarrow> (Inl err, e, [])
              | Inr rangeEnd \<Rightarrow>
                  (case kv_Delete_WithRange (kv e) keyPrefix rangeEnd of
                     Inl err \<Rightarrow> (Inl err, e, [])
                   | Inr (resp, s') \<Rightarrow>
                       (Inr True, e\<lparr>kv := s'\<rparr>,
                        if Deleted resp > 0
                        then notifyDelete e \<lparr>Kind = KindGroup, Name = grp, Group = [],
                                               Spec = Some g\<rparr>
                        else []))))"

text \<open>
  A stand-in for the protobuf codec, to run the model on concrete inputs: the wire bytes
  are the entity's own fields, the metadata is decoded empty, and two entities are equal
  when their own fields are.
\<close>

definition example_proto :: "bytes proto" where
  "example_proto =
     \<lparr>Marshal = (\<lambda>m. Inr (Fields m)),
      Unmarshal = (\<lambda>kind bs. Inr \<lparr>GetMetadata = Some \<lparr>md_Group = [], md_Name = [], md_Id = 0,
                                     md_CreateRevision = 0, md_ModRevision = 0\<rparr>,
                                   Fields = bs\<rparr>),
      Equal = (\<lambda>metadata m. case Spec metadata of None \<Rightarrow> False
                              | Some spec \<Rightarrow> Fields spec = Fields m)\<rparr>"

subsection \<open>Example inputs\<close>

text \<open>Concrete inputs on which the model is run.\<close>

definition example_key :: string where
  "example_key = ''/groups/default/streams/sw''"

definition example_record :: KeyValue where
  "example_record = \<lparr>kv_Key = example_key, kv_CreateRevision = 5, kv_ModRevision = 9,
                       kv_Version = 3, kv_Value = [1, 2, 3]\<rparr>"

definition example_handlers :: "string eventHandler list" where
  "example_handlers = [\<lparr>interestKeys = KindMeasure, handler = ''m''\<rparr>,
                       \<lparr>interestKeys = KindGroup OR KindStream, handler = ''gs''\<rparr>,
                       \<lparr>interestKeys = KindStream, handler = ''s''\<rparr>]"

definition example_registry :: "string etcdSchemaRegistry" where
  "example_registry = \<lparr>kv = \<lparr>kvs = [example_record], revision = 9\<rparr>,
                        handlers = example_handlers\<rparr>"

definition empty_registry :: "string etcdSchemaRegistry" where
  "empty_registry = \<lparr>kv = \<lparr>kvs = [], revision = 1\<rparr>, handlers = example_handlers\<rparr>"

definition doubled_registry :: "string etcdSchemaRegistry" where
  "doubled_registry = \<lparr>kv = \<lparr>kvs = [example_record, example_record], revision = 9\<rparr>,
                        handlers = example_handlers\<rparr>"

definition example_id :: commonv1_Metadata where
  "example_id = \<lparr>md_Group = ''default'', md_Name = ''sw'', md_Id = 0,
                   md_CreateRevision = 0, md_ModRevision = 0\<rparr>"

definition example_stream :: "bytes Metadata" where
  "example_stream = \<lparr>Kind = KindStream, Name = ''sw'', Group = ''default'',
                      Spec = Some \<lparr>GetMetadata = Some example_id, Fields = [7]\<rparr>\<rparr>"

definition example_same :: "bytes Metadata" where
  "example_same = \<lparr>Kind = KindStream, Name = ''sw'', Group = ''default'',
                    Spec = Some \<lparr>GetMetadata = Some example_id, Fields = [1, 2, 3]\<rparr>\<rparr>"

definition example_writer :: "store \<Rightarrow> store" where
  "example_writer s = store_put s example_key [4]"

definition example_measure :: TypeMeta where
  "example_measure = \<lparr>Kind = KindMeasure, Name = ''sw'', Group = ''default''\<rparr>"

definition slash_a :: TypeMeta where
  "slash_a = \<lparr>Kind = KindStream, Name = ''b/streams/c'', Group = ''a''\<rparr>"

definition slash_b :: TypeMeta where
  "slash_b = \<lparr>Kind = KindStream, Name = ''c'', Group = ''a/streams/b''\<rparr>"

definition slash_c :: TypeMeta where
  "slash_c = \<lparr>Kind = KindStream, Name = ''c'', Group = ''a''\<rparr>"

definition group_x :: TypeMeta where
  "group_x = \<lparr>Kind = KindGroup, Name = ''g'', Group = ''x''\<rparr>"

definition group_y :: TypeMeta where
  "group_y = \<lparr>Kind = KindGroup, Name = ''g'', Group = ''y''\<rparr>"

subsection \<open>Auxiliary functions of the proofs\<close>

text \<open>
  The two parts of a key around its last separator (used in the proofs): what precedes
  the last \<^verbatim>\<open>"/"\<close>, and what follows it.
\<close>

definition key_front :: "'a TypeMeta_scheme \<Rightarrow> string" where
  "key_front m =
     (if Kind m = KindGroup then ''/groups/'' @ Name m
      else if Kind m = KindStream then ''/groups/'' @ Group m @ ''/streams''
      else if Kind m = KindMeasure then ''/groups/'' @ Group m @ ''/measures''
      else if Kind m = KindIndexRule then ''/groups/'' @ Group m @ ''/index-rules''
      else ''/groups/'' @ Group m @ ''/index-rule-bindings'')"

definition key_last :: "'a TypeMeta_scheme \<Rightarrow> string" where
  "key_last m = (if Kind m = KindGroup then ''__meta_group__'' else Name m)"

text \<open>The number a byte sequence denotes when read big-endian (used in the proofs).\<close>

fun be_val :: "bytes \<Rightarrow> nat" where
  "be_val [] = 0"
| "be_val (b # bs) = unat b * 256 ^ length bs + be_val bs"

section \<open>Properties\<close>

subsection \<open>Big-endian bytes and their order\<close>

lemma length_big_endian: "length (big_endian n u) = n"
  by (induction n arbitrary: u) auto

lemma be_val_snoc: "be_val (bs @ [b]) = be_val bs * 256 + unat b"
  by (induction bs) (auto simp: algebra_simps)

lemma be_val_big_endian: "be_val (big_endian n u) = u mod 256 ^ n"
proof (induction n arbitrary: u)
  case 0
  show ?case by simp
next
  case (Suc n)
  have b: "unat (of_nat (u mod 256) :: byte) = u mod 256"
    by (simp add: unat_of_nat)
  have "u mod (256 * 256 ^ n) = 256 * (u div 256 mod 256 ^ n) + u mod 256"
    by (rule mod_mult2_eq)
  with Suc b show ?case
    by (simp add: be_val_snoc)
qed

lemma unat_byte_bound: "unat (b :: byte) < 256"
  using unsigned_less [of b, where 'a = nat] by simp

lemma be_val_bound: "be_val bs < 256 ^ length bs"
proof (induction bs)
  case Nil
  show ?case by simp
next
  case (Cons b bs)
  have "unat b + 1 \<le> 256" using unat_byte_bound [of b] by simp
  then have le: "(unat b + 1) * 256 ^ length bs \<le> 256 * 256 ^ length bs"
    by (rule mult_le_mono1)
  have "unat b * 256 ^ length bs + be_val bs < unat b * 256 ^ length bs + 256 ^ length bs"
    using Cons by simp
  also have "\<dots> = (unat b + 1) * 256 ^ length bs" by simp
  also note le
  finally show ?case by simp
qed

lemma digits_less:
  fixes a b r s P :: nat
  assumes "r < P" "s < P"
  shows "a * P + r < b * P + s \<longleftrightarrow> a < b \<or> a = b \<and> r < s"
proof (cases a b rule: linorder_cases)
  case less
  then have "(a + 1) * P \<le> b * P" by (intro mult_le_mono1) simp
  with assms less show ?thesis by (simp add: algebra_simps)
next
  case equal
  then show ?thesis by simp
next
  case greater
  then have "(b + 1) * P \<le> a * P" by (intro mult_le_mono1) simp
  with assms greater show ?thesis by (simp add: algebra_simps)
qed

lemma bytes_less_iff:
  "length xs = length ys \<Longrightarrow> (xs :: bytes) < ys \<longleftrightarrow> be_val xs < be_val ys"
proof (induction xs ys rule: list_induct2)
  case Nil
  show ?case by simp
next
  case (Cons x xs y ys)
  have "unat x * 256 ^ length ys + be_val xs < unat y * 256 ^ length ys + be_val ys
    \<longleftrightarrow> unat x < unat y \<or> unat x = unat y \<and> be_val xs < be_val ys"
    using be_val_bound [of xs] be_val_bound [of ys] Cons.hyps
    by (intro digits_less) simp_all
  with Cons show ?case
    by (simp add: word_less_nat_alt word_unat_eq_iff)
qed

lemma Int64ToBytes_val: "be_val (Int64ToBytes i) = nat (sint i + 2 ^ 63)"
proof -
  have "sint i < 2 ^ 63" "- (2 ^ 63) \<le> sint i"
    using sint_lt [of i] sint_ge [of i] by simp_all
  then have "nat (sint i + 2 ^ 63) < 256 ^ 8" by simp
  then show ?thesis by (simp add: Int64ToBytes_def be_val_big_endian)
qed

lemma length_Int64ToBytes: "length (Int64ToBytes i) = 8"
  by (simp add: Int64ToBytes_def length_big_endian)

lemma big_endian_numeral:
  "big_endian (numeral k) u = big_endian (pred_numeral k) (u div 256) @ [of_nat (u mod 256)]"
  by (simp only: numeral_eq_Suc [of k] big_endian.simps)

lemma Int64ToBytes_less_iff: "Int64ToBytes a < Int64ToBytes b \<longleftrightarrow> a <s b"
proof -
  have "- (2 ^ 63) \<le> sint a" "- (2 ^ 63) \<le> sint b"
    using sint_ge [of a] sint_ge [of b] by simp_all
  then have "nat (sint a + 2 ^ 63) < nat (sint b + 2 ^ 63) \<longleftrightarrow> sint a < sint b"
    by linarith
  moreover have "Int64ToBytes a < Int64ToBytes b
      \<longleftrightarrow> be_val (Int64ToBytes a) < be_val (Int64ToBytes b)"
    by (rule bytes_less_iff) (simp add: length_Int64ToBytes)
  ultimately show ?thesis
    by (simp only: Int64ToBytes_val word_sless_alt)
qed

text \<open>
  Claim C5.  For all \<^verbatim>\<open>int64\<close> values \<open>a < b\<close> (signed), the index-field encoding of
  \<open>a\<close> is strictly less than the encoding of \<open>b\<close> in the byte-lexicographic order, and
  every encoding is exactly 8 bytes long.
\<close>

theorem Int64ToBytes_order_preserving:
  "a <s b \<Longrightarrow>
     Int64ToBytes a < Int64ToBytes b \<and> length (Int64ToBytes a) = 8 \<and> length (Int64ToBytes b) = 8"
  by (simp only: length_Int64ToBytes Int64ToBytes_less_iff simp_thms)

text \<open>The instance named in the specification: \<open>encode(5) < encode(300)\<close>.\<close>

theorem Int64ToBytes_order_preserving_witness:
  "(5 :: int64) <s 300 \<and> Int64ToBytes 5 < Int64ToBytes 300 \<and> length (Int64ToBytes 5) = 8
     \<and> length (Int64ToBytes 300) = 8"
proof -
  have h: "(5 :: int64) <s 300" by (simp add: word_sless_alt)
  show ?thesis using h Int64ToBytes_order_preserving [OF h] by simp
qed

text \<open>
  The plain two's complement bytes would not do: \<open>-1\<close> encodes to eight bytes \<open>0xFF\<close>,
  above the encoding of \<open>0\<close>.
\<close>

lemma twos_complement_big_endian_not_monotone:
  "(-1 :: int64) <s 0 \<and> twos_complement_big_endian 0 < twos_complement_big_endian (-1)"
proof -
  have "unat (- 1 :: int64) = 18446744073709551615"
    by (simp add: unsigned_minus_1_eq_mask mask_eq_exp_minus_1)
  then show ?thesis
    by (simp add: twos_complement_big_endian_def word_sless_alt big_endian_numeral)
qed

lemma Int64ToBytes_300: "Int64ToBytes 300 = [128,0,0,0,0,0,1,44]"
  by (simp add: Int64ToBytes_def big_endian_numeral)

subsection \<open>The encoder against its reference\<close>

lemma foldl_append_concat:
  "foldl (\<lambda>buf i. buf @ f i) acc xs = acc @ concat (map f xs)"
  by (induction xs arbitrary: acc) simp_all

lemma foldl_join: "foldl (\<lambda>b s. b @ [CHR 0x0A] @ s) (acc @ e) es = acc @ join_newline (e # es)"
proof (induction es arbitrary: acc e)
  case Nil
  show ?case by simp
next
  case (Cons a es)
  have "foldl (\<lambda>b s. b @ [CHR 0x0A] @ s) (acc @ e) (a # es)
      = foldl (\<lambda>b s. b @ [CHR 0x0A] @ s) ((acc @ e @ [CHR 0x0A]) @ a) es"
    by simp
  also have "\<dots> = (acc @ e @ [CHR 0x0A]) @ join_newline (a # es)"
    by (rule Cons.IH)
  finally show ?case by simp
qed

lemma strings_Join_newline: "strings_Join ss strDelimiter = join_newline ss"
  using foldl_join [of "[]"] by (cases ss) (simp_all add: strDelimiter_def)

text \<open>
  Claim C6.  \<^verbatim>\<open>MarshalIndexFieldValue\<close> equals the reference encoding on every tag value:
  a string yields its bytes, a string array its elements joined by one newline in array
  order (\<^verbatim>\<open>["a","b"]\<close> yields \<^verbatim>\<open>"a\nb"\<close>), an int64 array the concatenation of the 8-byte
  encodings in array order, binary data its bytes, and null or a missing value fails
  with \<^verbatim>\<open>ErrUnsupportedTagForIndexField\<close> and no bytes.
\<close>

theorem MarshalIndexFieldValue_refines:
  "MarshalIndexFieldValue tv = EncodeIndexField tv
   \<and> MarshalIndexFieldValue (Some (TagValue (Some (TagValue_Str (Some (Str s))))))
       = Inr (bytes_of_string s)
   \<and> MarshalIndexFieldValue (Some (TagValue (Some (TagValue_StrArray (Some (StrArray [''a'', ''b'']))))))
       = Inr (bytes_of_string [CHR ''a'', CHR 0x0A, CHR ''b''])
   \<and> MarshalIndexFieldValue (Some (TagValue (Some (TagValue_IntArray (Some (IntArray ns))))))
       = Inr (concat (map Int64ToBytes ns))
   \<and> MarshalIndexFieldValue (Some (TagValue (Some (TagValue_BinaryData bb)))) = Inr bb
   \<and> MarshalIndexFieldValue (Some (TagValue (Some TagValue_Null)))
       = Inl ErrUnsupportedTagForIndexField
   \<and> MarshalIndexFieldValue (Some (TagValue None)) = Inl ErrUnsupportedTagForIndexField
   \<and> MarshalIndexFieldValue None = Inl ErrUnsupportedTagForIndexField"
proof -
  have ref: "MarshalIndexFieldValue tv = EncodeIndexField tv" for tv
  proof (cases tv)
    case None
    then show ?thesis by (simp add: MarshalIndexFieldValue_def TagValue_GetValue_def)
  next
    case (Some t)
    show ?thesis
    proof (cases t)
      case (TagValue ov)
      show ?thesis
      proof (cases ov)
        case None
        with Some TagValue show ?thesis by (simp add: MarshalIndexFieldValue_def TagValue_GetValue_def)
      next
        case (Some v)
        have "MarshalIndexFieldValue (Some (TagValue (Some v))) = EncodeIndexField_Value v"
          by (cases v rule: EncodeIndexField_Value.cases)
             (simp_all add: MarshalIndexFieldValue_def TagValue_GetValue_def bytes_of_string_def
               Str_GetValue_def Int_GetValue_def StrArray_GetValue_def IntArray_GetValue_def
               strings_Join_newline foldl_append_concat)
        with Some TagValue \<open>tv = Some t\<close> show ?thesis by simp
      qed
    qed
  qed
  show ?thesis
    unfolding ref by (simp add: bytes_of_string_def)
qed

subsection \<open>Facts about the example inputs\<close>

lemmas example_defs = example_key_def example_record_def example_handlers_def
  example_registry_def empty_registry_def doubled_registry_def example_id_def
  example_stream_def example_same_def example_writer_def example_proto_def

lemmas kind_defs = KindGroup_def KindStream_def KindMeasure_def KindIndexRuleBinding_def
  KindIndexRule_def KindMask_def

lemmas key_defs = Metadata_Key_def formatGroupKey_def formatStreamKey_def formatMeasureKey_def
  formatIndexRuleKey_def formatIndexRuleBindingKey_def formatKey_def GroupsKeyPrefix_def
  GroupMetadataKey_def StreamKeyPrefix_def MeasureKeyPrefix_def IndexRuleKeyPrefix_def
  IndexRuleBindingKeyPrefix_def GetGroup_md_def GetName_md_def

lemma example_stream_key: "Metadata_Key example_stream = Inr example_key"
  by (simp add: example_defs kind_defs key_defs)

lemma example_same_key: "Metadata_Key example_same = Inr example_key"
  by (simp add: example_defs kind_defs key_defs)

lemma example_matching: "matching (kv example_registry) example_key = [example_record]"
  by (simp add: matching_def example_registry_def example_record_def)

lemma example_notify:
  "notifyUpdate example_registry example_stream =
     [OnAddOrUpdate ''gs'' example_stream, OnAddOrUpdate ''s'' example_stream]"
  by (simp add: notifyUpdate_def example_registry_def example_handlers_def InterestOf_def
        kind_defs example_stream_def)

lemma example_stream_spec:
  "Spec example_stream = Some \<lparr>GetMetadata = Some example_id, Fields = [7]\<rparr>"
  by (simp add: example_stream_def)

lemma example_stream_marshal:
  "Marshal example_proto \<lparr>GetMetadata = Some example_id, Fields = [7]\<rparr> = Inr [7]"
  by (simp add: example_proto_def)

lemma example_unmarshal:
  "Unmarshal example_proto kind bs
     = Inr \<lparr>GetMetadata = Some \<lparr>md_Group = [], md_Name = [], md_Id = 0,
                                  md_CreateRevision = 0, md_ModRevision = 0\<rparr>,
            Fields = bs\<rparr>"
  by (simp add: example_proto_def)

lemma example_stream_equal:
  "Equal example_proto example_stream m \<longleftrightarrow> Fields m = [7]"
  by (auto simp: example_proto_def example_stream_def)

lemma example_same_equal:
  "Equal example_proto example_same m \<longleftrightarrow> Fields m = [1, 2, 3]"
  by (auto simp: example_proto_def example_same_def)

lemma example_record_value: "kv_Value example_record = [1, 2, 3]"
  by (simp add: example_record_def)

subsection \<open>Key codec\<close>

lemma split_at_separator:
  "c \<notin> set a \<Longrightarrow> c \<notin> set b \<Longrightarrow> a @ c # x = b @ c # y \<Longrightarrow> a = b \<and> x = y"
proof (induction a arbitrary: b)
  case Nil
  then show ?case by (cases b) auto
next
  case (Cons h a)
  then show ?case by (cases b) auto
qed

lemma Metadata_Key_front_last:
  assumes "Kind m \<in> {KindGroup, KindStream, KindMeasure, KindIndexRuleBinding, KindIndexRule}"
  shows "Metadata_Key m = Inr (key_front m @ CHR ''/'' # key_last m)"
  using assms by (auto simp: key_front_def key_last_def key_defs kind_defs)

lemma split_at_last_separator:
  assumes "c \<notin> set x" and "c \<notin> set y" and "a @ c # x = b @ c # y"
  shows "a = b \<and> x = y"
proof -
  from assms(3) have "rev (a @ c # x) = rev (b @ c # y)" by simp
  then have "rev x @ c # rev a = rev y @ c # rev b" by simp
  moreover have "c \<notin> set (rev x)" "c \<notin> set (rev y)" using assms(1,2) by simp_all
  ultimately have "rev x = rev y \<and> rev a = rev b"
    by (intro split_at_separator)
  then show ?thesis by simp
qed

lemma append_eq_rev: "xs @ a = ys @ b \<longleftrightarrow> rev a @ rev xs = rev b @ rev ys"
  by (metis rev_append rev_rev_ident)

lemma separator_in_appended: "xs @ c # ys = n \<Longrightarrow> c \<in> set n"
  by auto

lemma key_front_inj:
  assumes k: "Kind m \<in> {KindGroup, KindStream, KindMeasure, KindIndexRuleBinding, KindIndexRule}"
    and k': "Kind m' \<in> {KindGroup, KindStream, KindMeasure, KindIndexRuleBinding, KindIndexRule}"
    and s: "CHR ''/'' \<notin> set (Name m)" and s': "CHR ''/'' \<notin> set (Name m')"
    and eq: "key_front m = key_front m'"
  shows "Kind m = Kind m' \<and> (Kind m = KindGroup \<longrightarrow> Name m = Name m')
           \<and> (Kind m \<noteq> KindGroup \<longrightarrow> Group m = Group m')"
  using assms
  by (auto simp: key_front_def kind_defs append_eq_rev dest: separator_in_appended)

lemma Metadata_Key_inj_names:
  assumes k: "Kind m \<in> {KindGroup, KindStream, KindMeasure, KindIndexRuleBinding, KindIndexRule}"
    and k': "Kind m' \<in> {KindGroup, KindStream, KindMeasure, KindIndexRuleBinding, KindIndexRule}"
    and s: "CHR ''/'' \<notin> set (Name m) \<union> set (Name m')"
    and eq: "Metadata_Key m = Metadata_Key m'"
  shows "Kind m = Kind m' \<and> Name m = Name m' \<and> (Kind m \<noteq> KindGroup \<longrightarrow> Group m = Group m')"
proof -
  have n: "CHR ''/'' \<notin> set (Name m)" "CHR ''/'' \<notin> set (Name m')"
    using s by simp_all
  have l: "CHR ''/'' \<notin> set (key_last m)" "CHR ''/'' \<notin> set (key_last m')"
    using n by (simp_all add: key_last_def)
  from eq have "key_front m @ CHR ''/'' # key_last m = key_front m' @ CHR ''/'' # key_last m'"
    by (simp add: Metadata_Key_front_last [OF k] Metadata_Key_front_last [OF k'])
  then have "key_front m = key_front m' \<and> key_last m = key_last m'"
    by (rule split_at_last_separator [OF l])
  then have front: "key_front m = key_front m'" and last: "key_last m = key_last m'"
    by simp_all
  from key_front_inj [OF k k' n front]
  have kind: "Kind m = Kind m'" and name: "Kind m = KindGroup \<longrightarrow> Name m = Name m'"
    and grp: "Kind m \<noteq> KindGroup \<longrightarrow> Group m = Group m'"
    by simp_all
  from last kind name grp show ?thesis
    by (auto simp: key_last_def)
qed

text \<open>
  Claim C7, as amended.  The keys have the stated forms, and the codec is injective on
  the triples whose name contains no \<^verbatim>\<open>"/"\<close>, whatever the group is: two envelopes of the
  five kinds that differ in kind, in name, or, for a kind other than group, in group
  have different keys (the key of a group is made from its name alone).
\<close>

theorem key_codec_injective_slash_free_names:
  "(Kind m \<in> {KindGroup, KindStream, KindMeasure, KindIndexRuleBinding, KindIndexRule}
      \<and> Kind m' \<in> {KindGroup, KindStream, KindMeasure, KindIndexRuleBinding, KindIndexRule}
      \<and> CHR ''/'' \<notin> set (Name m) \<union> set (Name m')
      \<and> (Kind m \<noteq> Kind m' \<or> Name m \<noteq> Name m'
           \<or> Kind m \<noteq> KindGroup \<and> Group m \<noteq> Group m')
      \<longrightarrow> Metadata_Key m \<noteq> Metadata_Key m')
   \<and> Metadata_Key \<lparr>Kind = KindGroup, Name = n, Group = g\<rparr>
       = Inr (''/groups/'' @ n @ ''/__meta_group__'')
   \<and> Metadata_Key \<lparr>Kind = KindStream, Name = n, Group = g\<rparr>
       = Inr (''/groups/'' @ g @ ''/streams/'' @ n)
   \<and> Metadata_Key \<lparr>Kind = KindMeasure, Name = n, Group = g\<rparr>
       = Inr (''/groups/'' @ g @ ''/measures/'' @ n)
   \<and> Metadata_Key \<lparr>Kind = KindIndexRule, Name = n, Group = g\<rparr>
       = Inr (''/groups/'' @ g @ ''/index-rules/'' @ n)
   \<and> Metadata_Key \<lparr>Kind = KindIndexRuleBinding, Name = n, Group = g\<rparr>
       = Inr (''/groups/'' @ g @ ''/index-rule-bindings/'' @ n)
   \<and> formatGroupKey g = ''/groups/'' @ g @ ''/__meta_group__''
   \<and> formatStreamKey md = ''/groups/'' @ GetGroup_md md @ ''/streams/'' @ GetName_md md
   \<and> formatMeasureKey md = ''/groups/'' @ GetGroup_md md @ ''/measures/'' @ GetName_md md
   \<and> formatIndexRuleKey md = ''/groups/'' @ GetGroup_md md @ ''/index-rules/'' @ GetName_md md
   \<and> formatIndexRuleBindingKey md
       = ''/groups/'' @ GetGroup_md md @ ''/index-rule-bindings/'' @ GetName_md md"
proof -
  have inj: "Kind m \<in> {KindGroup, KindStream, KindMeasure, KindIndexRuleBinding, KindIndexRule}
      \<and> Kind m' \<in> {KindGroup, KindStream, KindMeasure, KindIndexRuleBinding, KindIndexRule}
      \<and> CHR ''/'' \<notin> set (Name m) \<union> set (Name m')
      \<and> (Kind m \<noteq> Kind m' \<or> Name m \<noteq> Name m'
           \<or> Kind m \<noteq> KindGroup \<and> Group m \<noteq> Group m')
      \<longrightarrow> Metadata_Key m \<noteq> Metadata_Key m'"
    using Metadata_Key_inj_names [of m m'] by blast
  have keys: "Metadata_Key \<lparr>Kind = KindGroup, Name = n, Group = g\<rparr>
       = Inr (''/groups/'' @ n @ ''/__meta_group__'')"
    "Metadata_Key \<lparr>Kind = KindStream, Name = n, Group = g\<rparr>
       = Inr (''/groups/'' @ g @ ''/streams/'' @ n)"
    "Metadata_Key \<lparr>Kind = KindMeasure, Name = n, Group = g\<rparr>
       = Inr (''/groups/'' @ g @ ''/measures/'' @ n)"
    "Metadata_Key \<lparr>Kind = KindIndexRule, Name = n, Group = g\<rparr>
       = Inr (''/groups/'' @ g @ ''/index-rules/'' @ n)"
    "Metadata_Key \<lparr>Kind = KindIndexRuleBinding, Name = n, Group = g\<rparr>
       = Inr (''/groups/'' @ g @ ''/index-rule-bindings/'' @ n)"
    by (simp_all add: key_defs kind_defs)
  have forms: "formatGroupKey g = ''/groups/'' @ g @ ''/__meta_group__''"
    "formatStreamKey md = ''/groups/'' @ GetGroup_md md @ ''/streams/'' @ GetName_md md"
    "formatMeasureKey md = ''/groups/'' @ GetGroup_md md @ ''/measures/'' @ GetName_md md"
    "formatIndexRuleKey md = ''/groups/'' @ GetGroup_md md @ ''/index-rules/'' @ GetName_md md"
    "formatIndexRuleBindingKey md
       = ''/groups/'' @ GetGroup_md md @ ''/index-rule-bindings/'' @ GetName_md md"
    by (simp_all add: formatGroupKey_def formatStreamKey_def formatMeasureKey_def
          formatIndexRuleKey_def formatIndexRuleBindingKey_def formatKey_def GroupsKeyPrefix_def
          GroupMetadataKey_def StreamKeyPrefix_def MeasureKeyPrefix_def IndexRuleKeyPrefix_def
          IndexRuleBindingKeyPrefix_def)
  from inj keys forms show ?thesis by (simp only: simp_thms)
qed

theorem key_codec_injective_slash_free_names_witness:
  "Metadata_Key example_stream = Inr ''/groups/default/streams/sw''
   \<and> Metadata_Key example_measure = Inr ''/groups/default/measures/sw''
   \<and> Metadata_Key example_stream \<noteq> Metadata_Key example_measure
   \<and> Metadata_Key slash_b = Inr ''/groups/a/streams/b/streams/c''
   \<and> Metadata_Key slash_c = Inr ''/groups/a/streams/c''
   \<and> Metadata_Key slash_b \<noteq> Metadata_Key slash_c"
proof -
  have h: "Kind example_stream
        \<in> {KindGroup, KindStream, KindMeasure, KindIndexRuleBinding, KindIndexRule}
      \<and> Kind example_measure
        \<in> {KindGroup, KindStream, KindMeasure, KindIndexRuleBinding, KindIndexRule}
      \<and> CHR ''/'' \<notin> set (Name example_stream) \<union> set (Name example_measure)
      \<and> (Kind example_stream \<noteq> Kind example_measure \<or> Name example_stream \<noteq> Name example_measure
          \<or> Kind example_stream \<noteq> KindGroup \<and> Group example_stream \<noteq> Group example_measure)"
    by (simp add: example_stream_def example_measure_def kind_defs)
  have g: "Kind slash_b
        \<in> {KindGroup, KindStream, KindMeasure, KindIndexRuleBinding, KindIndexRule}
      \<and> Kind slash_c
        \<in> {KindGroup, KindStream, KindMeasure, KindIndexRuleBinding, KindIndexRule}
      \<and> CHR ''/'' \<notin> set (Name slash_b) \<union> set (Name slash_c)
      \<and> (Kind slash_b \<noteq> Kind slash_c \<or> Name slash_b \<noteq> Name slash_c
          \<or> Kind slash_b \<noteq> KindGroup \<and> Group slash_b \<noteq> Group slash_c)"
    by (simp add: slash_b_def slash_c_def kind_defs)
  note kinds_differ = key_codec_injective_slash_free_names [where m = example_stream
      and m' = example_measure, THEN conjunct1, THEN mp, OF h]
  note groups_differ = key_codec_injective_slash_free_names [where m = slash_b
      and m' = slash_c, THEN conjunct1, THEN mp, OF g]
  have "Metadata_Key example_stream = Inr ''/groups/default/streams/sw''"
    "Metadata_Key example_measure = Inr ''/groups/default/measures/sw''"
    "Metadata_Key slash_b = Inr ''/groups/a/streams/b/streams/c''"
    "Metadata_Key slash_c = Inr ''/groups/a/streams/c''"
    by (simp_all add: example_stream_def example_measure_def slash_b_def slash_c_def
          kind_defs key_defs)
  with kinds_differ groups_differ show ?thesis by simp
qed

text \<open>
  The claim as first stated fails in two ways.  A \<^verbatim>\<open>"/"\<close> in a name lets two different
  triples share one key: the stream \<^verbatim>\<open>b/streams/c\<close> of group \<^verbatim>\<open>a\<close> and the stream \<^verbatim>\<open>c\<close> of
  group \<^verbatim>\<open>a/streams/b\<close>.  And the key of a group is made from one string only
  (\<^verbatim>\<open>formatGroupKey\<close> takes nothing else), so two group triples that differ in the other
  component share one key.
\<close>

theorem key_codec_slash_counterexample:
  "slash_a \<noteq> slash_b
   \<and> Metadata_Key slash_a = Inr ''/groups/a/streams/b/streams/c''
   \<and> Metadata_Key slash_b = Inr ''/groups/a/streams/b/streams/c''
   \<and> formatStreamKey (Some \<lparr>md_Group = ''a'', md_Name = ''b/streams/c'', md_Id = 0,
                              md_CreateRevision = 0, md_ModRevision = 0\<rparr>)
     = formatStreamKey (Some \<lparr>md_Group = ''a/streams/b'', md_Name = ''c'', md_Id = 0,
                                md_CreateRevision = 0, md_ModRevision = 0\<rparr>)
   \<and> group_x \<noteq> group_y
   \<and> Metadata_Key group_x = Inr ''/groups/g/__meta_group__''
   \<and> Metadata_Key group_y = Inr ''/groups/g/__meta_group__''"
  by (simp add: slash_a_def slash_b_def group_x_def group_y_def kind_defs key_defs)

subsection \<open>The bound of a prefix scan\<close>

lemma unat_of_char: "unat (of_char c :: byte) = of_char c"
proof -
  have "(of_char c :: byte) = of_nat (of_char c)"
    by (simp add: of_nat_of_char)
  then have "unat (of_char c :: byte) = (of_char c :: nat) mod 256"
    by (simp add: unat_of_nat)
  then show ?thesis by simp
qed

lemma of_char_byte_eq_iff: "(of_char c :: byte) = of_char d \<longleftrightarrow> c = d"
proof
  assume "(of_char c :: byte) = of_char d"
  then have "unat (of_char c :: byte) = unat (of_char d :: byte)" by simp
  then show "c = d" by (simp add: unat_of_char)
qed simp

lemma bytes_of_string_inj: "bytes_of_string s = bytes_of_string t \<longleftrightarrow> s = t"
  unfolding bytes_of_string_def
  by (rule inj_map_eq_map) (simp add: inj_def of_char_byte_eq_iff)

lemma of_char_char_of_unat: "(of_char (char_of (unat b)) :: byte) = b"
proof -
  have "unat (of_char (char_of (unat b)) :: byte) = unat b"
    using unat_byte_bound [of b] by (simp add: unat_of_char)
  then show ?thesis by (simp only: word_unat_eq_iff)
qed

lemma bytes_of_string_of_bytes: "bytes_of_string (string_of_bytes bb) = bb"
  by (simp add: bytes_of_string_def string_of_bytes_def of_char_char_of_unat map_idI)

lemma byte_less_succ:
  fixes x c :: byte
  assumes "c + 1 \<noteq> 0"
  shows "x < c + 1 \<longleftrightarrow> x \<le> c"
proof -
  have "unat (1 + c) = Suc (unat c)"
    using assms by (intro unatSuc) (simp add: add.commute)
  then show ?thesis
    by (simp add: word_less_nat_alt word_le_nat_alt add.commute less_Suc_eq_le)
qed

lemma bytes_range_iff_prefix:
  fixes p k :: bytes and c :: byte
  assumes "c + 1 \<noteq> 0"
  shows "(p @ [c] \<le> k \<and> k < p @ [c + 1]) \<longleftrightarrow> take (Suc (length p)) k = p @ [c]"
proof (induction p arbitrary: k)
  case Nil
  show ?case
  proof (cases k)
    case Nil
    then show ?thesis by simp
  next
    case (Cons x xs)
    then show ?thesis
      using byte_less_succ [OF assms, of x] by auto
  qed
next
  case (Cons a p)
  show ?case
  proof (cases k)
    case Nil
    then show ?thesis by simp
  next
    case (Cons x xs)
    then show ?thesis
      using Cons.IH [of xs] by auto
  qed
qed

lemma increment_last:
  "bb \<noteq> [] \<Longrightarrow> bb[length bb - 1 := bb ! (length bb - 1) + 1] = butlast bb @ [last bb + (1 :: byte)]"
  by (induction bb rule: rev_induct) (simp_all add: nth_append)

lemma incrementLastByte_Inr:
  assumes "key \<noteq> []"
  shows "incrementLastByte key
    = Inr (string_of_bytes (butlast (bytes_of_string key) @ [last (bytes_of_string key) + 1]))"
proof -
  have "bytes_of_string key \<noteq> []" using assms by (simp add: bytes_of_string_def)
  then show ?thesis
    using increment_last [of "bytes_of_string key"]
    by (simp add: incrementLastByte_def Let_def)
qed

lemma HasPrefix_bytes:
  "HasPrefix k prefix \<longleftrightarrow>
     take (length (bytes_of_string prefix)) (bytes_of_string k) = bytes_of_string prefix"
proof -
  have "take (length prefix) (bytes_of_string k) = bytes_of_string (take (length prefix) k)"
    by (simp add: bytes_of_string_def take_map)
  moreover have "take (length prefix) k = prefix
      \<longleftrightarrow> bytes_of_string (take (length prefix) k) = bytes_of_string prefix"
    by (simp only: bytes_of_string_inj)
  moreover have "length (bytes_of_string prefix) = length prefix"
    by (simp add: bytes_of_string_def)
  ultimately show ?thesis
    by (simp only: HasPrefix_def)
qed

lemma incremented_prefix_range:
  assumes "prefix \<noteq> []" and "last prefix \<noteq> CHR 0xFF"
  shows "\<exists>bound. incrementLastByte prefix = Inr bound
           \<and> (\<forall>k. HasPrefix k prefix \<longleftrightarrow> inRange prefix bound k)"
proof -
  let ?bb = "bytes_of_string prefix"
  let ?bound = "string_of_bytes (butlast ?bb @ [last ?bb + 1])"
  have ne: "?bb \<noteq> []" using assms(1) by (simp add: bytes_of_string_def)
  have "last ?bb = of_char (last prefix)"
    using assms(1) by (simp add: bytes_of_string_def last_map)
  moreover have "(of_char (last prefix) :: byte) \<noteq> of_char (CHR 0xFF)"
    using assms(2) by (simp only: of_char_byte_eq_iff not_False_eq_True)
  ultimately have "last ?bb \<noteq> 255" by simp
  moreover have "(- 1 :: byte) = 255" by simp
  ultimately have nowrap: "last ?bb + 1 \<noteq> 0"
    by (simp only: eq_neg_iff_add_eq_0 [symmetric]) simp
  have split: "?bb = butlast ?bb @ [last ?bb]" using ne by simp
  have len: "Suc (length (butlast ?bb)) = length ?bb" using ne by simp
  have "HasPrefix k prefix \<longleftrightarrow> inRange prefix ?bound k" for k
  proof -
    have "inRange prefix ?bound k \<longleftrightarrow>
        butlast ?bb @ [last ?bb] \<le> bytes_of_string k
        \<and> bytes_of_string k < butlast ?bb @ [last ?bb + 1]"
      using split by (simp add: inRange_def bytes_of_string_of_bytes)
    also have "\<dots> \<longleftrightarrow> take (length ?bb) (bytes_of_string k) = ?bb"
      using bytes_range_iff_prefix [OF nowrap, of "butlast ?bb" "bytes_of_string k"] split len
      by simp
    finally show ?thesis by (simp add: HasPrefix_bytes)
  qed
  then show ?thesis
    using incrementLastByte_Inr [OF assms(1)] by blast
qed

text \<open>
  Claim C8, as amended.  For every non-empty prefix whose last byte is not \<open>0xFF\<close>,
  \<^verbatim>\<open>incrementLastByte\<close> returns a bound such that the keys in the half-open range from the
  prefix to the bound are exactly the keys that have the prefix.
\<close>

theorem incrementLastByte_bounds_prefix_range:
  assumes "prefix \<noteq> []" and "last prefix \<noteq> CHR 0xFF"
  shows "\<exists>bound. incrementLastByte prefix = Inr bound
           \<and> (\<forall>k. HasPrefix k prefix \<longleftrightarrow> inRange prefix bound k)"
  using assms by (rule incremented_prefix_range)

theorem incrementLastByte_bounds_prefix_range_witness:
  "GroupsKeyPrefix \<noteq> [] \<and> last GroupsKeyPrefix \<noteq> CHR 0xFF
   \<and> incrementLastByte GroupsKeyPrefix = Inr ''/groups0''
   \<and> HasPrefix example_key GroupsKeyPrefix \<and> inRange GroupsKeyPrefix ''/groups0'' example_key
   \<and> \<not> HasPrefix ''/groupz/x'' GroupsKeyPrefix
   \<and> \<not> inRange GroupsKeyPrefix ''/groups0'' ''/groupz/x''"
proof -
  have h1: "GroupsKeyPrefix \<noteq> []" and h2: "last GroupsKeyPrefix \<noteq> CHR 0xFF"
    by (simp_all add: GroupsKeyPrefix_def)
  have b: "incrementLastByte GroupsKeyPrefix = Inr ''/groups0''"
    by (simp add: GroupsKeyPrefix_def incrementLastByte_def bytes_of_string_def
          string_of_bytes_def Let_def char_of_def bit_0 bit_Suc_0_iff)
  have p: "HasPrefix example_key GroupsKeyPrefix" "\<not> HasPrefix ''/groupz/x'' GroupsKeyPrefix"
    by (simp_all add: HasPrefix_def example_key_def GroupsKeyPrefix_def)
  from incrementLastByte_bounds_prefix_range [OF h1 h2] b
  have "HasPrefix k GroupsKeyPrefix \<longleftrightarrow> inRange GroupsKeyPrefix ''/groups0'' k" for k
    by auto
  with h1 h2 b p show ?thesis by simp
qed

text \<open>
  The restriction is needed: the byte \<open>0xFF\<close> wraps to \<open>0x00\<close>, the bound falls below the
  prefix, and the key \<^verbatim>\<open>"\xff"\<close>, which has the prefix \<^verbatim>\<open>"\xff"\<close>, is not below the bound.
\<close>

theorem incrementLastByte_wraps_counterexample:
  "[CHR 0xFF] \<noteq> [] \<and> incrementLastByte [CHR 0xFF] = Inr [CHR 0x00]
   \<and> HasPrefix [CHR 0xFF] [CHR 0xFF] \<and> \<not> inRange [CHR 0xFF] [CHR 0x00] [CHR 0xFF]"
  by (simp add: incrementLastByte_def bytes_of_string_def string_of_bytes_def Let_def
        char_of_def HasPrefix_def inRange_def bit_0)

text \<open>
  Every prefix that the registry scans or deletes by ends in \<^verbatim>\<open>"/"\<close>, so its bound is
  right, and the range read or deleted holds exactly the records whose key has the
  prefix.
\<close>

lemma scan_prefixes_end_in_slash:
  "GroupsKeyPrefix \<noteq> [] \<and> last GroupsKeyPrefix = CHR ''/''"
  "listPrefixesForEntity grp StreamKeyPrefix \<noteq> []
     \<and> last (listPrefixesForEntity grp StreamKeyPrefix) = CHR ''/''"
  "listPrefixesForEntity grp MeasureKeyPrefix \<noteq> []
     \<and> last (listPrefixesForEntity grp MeasureKeyPrefix) = CHR ''/''"
  "listPrefixesForEntity grp IndexRuleKeyPrefix \<noteq> []
     \<and> last (listPrefixesForEntity grp IndexRuleKeyPrefix) = CHR ''/''"
  "listPrefixesForEntity grp IndexRuleBindingKeyPrefix \<noteq> []
     \<and> last (listPrefixesForEntity grp IndexRuleBindingKeyPrefix) = CHR ''/''"
  "GroupsKeyPrefix @ name @ ''/'' \<noteq> [] \<and> last (GroupsKeyPrefix @ name @ ''/'') = CHR ''/''"
  by (simp_all add: listPrefixesForEntity_def GroupsKeyPrefix_def StreamKeyPrefix_def
        MeasureKeyPrefix_def IndexRuleKeyPrefix_def IndexRuleBindingKeyPrefix_def)

lemma range_filter_is_prefix_filter:
  assumes "prefix \<noteq> []" and "last prefix = CHR ''/''"
  shows "\<exists>bound. incrementLastByte prefix = Inr bound
           \<and> filter (\<lambda>x. inRange prefix bound (kv_Key x)) (kvs s)
             = filter (\<lambda>x. HasPrefix (kv_Key x) prefix) (kvs s)"
proof -
  have "last prefix \<noteq> CHR 0xFF" using assms(2) by simp
  from incremented_prefix_range [OF assms(1) this]
  show ?thesis by auto
qed

subsection \<open>Event dispatch\<close>

lemma dispatchUpdate_filter:
  "dispatchUpdate hs md =
     map (\<lambda>h. OnAddOrUpdate (handler h) md) (filter (\<lambda>h. InterestOf h (Kind md)) hs)"
  by (induction hs) simp_all

lemma dispatchDelete_filter:
  "dispatchDelete hs md =
     map (\<lambda>h. OnDelete (handler h) md) (filter (\<lambda>h. InterestOf h (Kind md)) hs)"
  by (induction hs) simp_all

lemma KindMask_covers:
  "kind \<in> {KindGroup, KindStream, KindMeasure, KindIndexRuleBinding, KindIndexRule}
     \<Longrightarrow> KindMask AND kind = kind"
  by (auto simp: KindMask_def KindGroup_def KindStream_def KindMeasure_def
        KindIndexRuleBinding_def KindIndexRule_def)

lemma InterestOf_entity_kind:
  assumes "kind \<in> {KindGroup, KindStream, KindMeasure, KindIndexRuleBinding, KindIndexRule}"
  shows "InterestOf eh kind \<longleftrightarrow> interestKeys eh AND kind \<noteq> 0"
proof -
  have "KindMask AND kind AND interestKeys eh = (KindMask AND kind) AND interestKeys eh"
    by (simp add: and.assoc)
  also have "\<dots> = interestKeys eh AND kind"
    by (simp add: KindMask_covers [OF assms] and.commute)
  finally show ?thesis by (simp add: InterestOf_def)
qed

text \<open>
  Claim C9.  A dispatch for an entity of one of the five kinds calls exactly the
  registered handlers whose interest mask has a bit in common with the kind
  (\<open>mask AND kind \<noteq> 0\<close>), within the call, in the order of registration
  (\<^verbatim>\<open>RegisterHandler\<close> appends to the handler list).
\<close>

theorem notify_interested_in_order:
  assumes "Kind metadata \<in> {KindGroup, KindStream, KindMeasure, KindIndexRuleBinding, KindIndexRule}"
  shows "notifyUpdate e metadata =
           map (\<lambda>h. OnAddOrUpdate (handler h) metadata)
             (filter (\<lambda>h. interestKeys h AND Kind metadata \<noteq> 0) (handlers e))
         \<and> notifyDelete e metadata =
           map (\<lambda>h. OnDelete (handler h) metadata)
             (filter (\<lambda>h. interestKeys h AND Kind metadata \<noteq> 0) (handlers e))
         \<and> handlers (RegisterHandler e kind h) =
           handlers e @ [\<lparr>interestKeys = kind, handler = h\<rparr>]"
  by (simp add: notifyUpdate_def notifyDelete_def dispatchUpdate_filter dispatchDelete_filter
        InterestOf_entity_kind [OF assms] RegisterHandler_def)

theorem notify_interested_in_order_witness:
  "Kind example_stream \<in> {KindGroup, KindStream, KindMeasure, KindIndexRuleBinding, KindIndexRule}
   \<and> notifyUpdate example_registry example_stream
      = [OnAddOrUpdate ''gs'' example_stream, OnAddOrUpdate ''s'' example_stream]
   \<and> notifyDelete example_registry example_stream
      = [OnDelete ''gs'' example_stream, OnDelete ''s'' example_stream]"
proof -
  have h: "Kind example_stream
      \<in> {KindGroup, KindStream, KindMeasure, KindIndexRuleBinding, KindIndexRule}"
    by (simp add: example_stream_def)
  have k: "Kind example_stream = KindStream"
    by (simp add: example_stream_def)
  show ?thesis
    using h notify_interested_in_order [OF h, of example_registry]
    by (simp add: k example_registry_def example_handlers_def kind_defs)
qed

subsection \<open>Get\<close>

text \<open>
  Claim C3.  \<^verbatim>\<open>get\<close> fails with \<^verbatim>\<open>ErrEntityNotFound\<close> when no record is stored under the
  key and with \<^verbatim>\<open>ErrUnexpectedNumberOfEntities\<close> when more than one is; when exactly one
  record is stored and decodes to a message with metadata it returns that message with
  the create and mod revision of the record in place of the decoded ones, and it
  returns a message only in that way.
\<close>

theorem get_result:
  "(matching (kv e) key = [] \<longrightarrow> get p e key kind = Inl ErrEntityNotFound)
   \<and> (1 < length (matching (kv e) key) \<longrightarrow> get p e key kind = Inl ErrUnexpectedNumberOfEntities)
   \<and> (matching (kv e) key = [kv0] \<and> Unmarshal p kind (kv_Value kv0) = Inr stored
        \<and> GetMetadata stored = Some md \<longrightarrow>
        get p e key kind =
          Inr (stored\<lparr>GetMetadata := Some (md\<lparr>md_CreateRevision := kv_CreateRevision kv0,
                                               md_ModRevision := kv_ModRevision kv0\<rparr>)\<rparr>))
   \<and> (get p e key kind = Inr message \<longrightarrow>
        (\<exists>kv0 stored md. matching (kv e) key = [kv0] \<and> Unmarshal p kind (kv_Value kv0) = Inr stored
           \<and> GetMetadata stored = Some md
           \<and> message = stored\<lparr>GetMetadata := Some (md\<lparr>md_CreateRevision := kv_CreateRevision kv0,
                                               md_ModRevision := kv_ModRevision kv0\<rparr>)\<rparr>))"
proof (intro conjI impI)
  assume "matching (kv e) key = []"
  then show "get p e key kind = Inl ErrEntityNotFound"
    by (simp add: get_def kv_Get_def)
next
  assume "1 < length (matching (kv e) key)"
  then show "get p e key kind = Inl ErrUnexpectedNumberOfEntities"
    by (auto simp: get_def kv_Get_def)
next
  assume "matching (kv e) key = [kv0] \<and> Unmarshal p kind (kv_Value kv0) = Inr stored
        \<and> GetMetadata stored = Some md"
  then show "get p e key kind =
          Inr (stored\<lparr>GetMetadata := Some (md\<lparr>md_CreateRevision := kv_CreateRevision kv0,
                                               md_ModRevision := kv_ModRevision kv0\<rparr>)\<rparr>)"
    by (simp add: get_def kv_Get_def)
next
  assume ok: "get p e key kind = Inr message"
  show "\<exists>kv0 stored md. matching (kv e) key = [kv0] \<and> Unmarshal p kind (kv_Value kv0) = Inr stored
           \<and> GetMetadata stored = Some md
           \<and> message = stored\<lparr>GetMetadata := Some (md\<lparr>md_CreateRevision := kv_CreateRevision kv0,
                                               md_ModRevision := kv_ModRevision kv0\<rparr>)\<rparr>"
  proof (cases "matching (kv e) key")
    case Nil
    with ok show ?thesis by (simp add: get_def kv_Get_def)
  next
    case (Cons kv0 rest)
    show ?thesis
    proof (cases rest)
      case Nil
      with ok Cons show ?thesis
        by (auto simp: get_def kv_Get_def split: sum.splits option.splits)
    next
      case (Cons a list)
      with ok \<open>matching (kv e) key = kv0 # rest\<close> show ?thesis
        by (simp add: get_def kv_Get_def)
    qed
  qed
qed

theorem get_result_witness:
  "get example_proto empty_registry example_key KindStream = Inl ErrEntityNotFound
   \<and> get example_proto doubled_registry example_key KindStream = Inl ErrUnexpectedNumberOfEntities
   \<and> get example_proto example_registry example_key KindStream
     = Inr \<lparr>GetMetadata = Some \<lparr>md_Group = [], md_Name = [], md_Id = 0,
                                   md_CreateRevision = 5, md_ModRevision = 9\<rparr>,
            Fields = [1, 2, 3]\<rparr>"
proof -
  let ?md = "\<lparr>md_Group = [], md_Name = [], md_Id = 0, md_CreateRevision = 0,
               md_ModRevision = 0\<rparr>"
  let ?stored = "\<lparr>GetMetadata = Some ?md, Fields = kv_Value example_record\<rparr>"
  have a: "matching (kv empty_registry) example_key = []"
    by (simp add: matching_def empty_registry_def)
  have b: "1 < length (matching (kv doubled_registry) example_key)"
    by (simp add: matching_def doubled_registry_def example_record_def)
  have c: "matching (kv example_registry) example_key = [example_record]
      \<and> Unmarshal example_proto KindStream (kv_Value example_record) = Inr ?stored
      \<and> GetMetadata ?stored = Some ?md"
    by (simp add: example_matching example_unmarshal)
  note absent = get_result [where e = empty_registry and key = example_key
      and p = example_proto and kind = KindStream, THEN conjunct1, THEN mp, OF a]
  note several = get_result [where e = doubled_registry and key = example_key
      and p = example_proto and kind = KindStream, THEN conjunct2, THEN conjunct1, THEN mp, OF b]
  note found = get_result [where e = example_registry and key = example_key
      and p = example_proto and kind = KindStream,
      THEN conjunct2, THEN conjunct2, THEN conjunct1, THEN mp, OF c]
  show ?thesis
    unfolding absent several found by (simp add: example_record_def)
qed

subsection \<open>Update\<close>

lemma update_equal_noop:
  assumes "Metadata_Key metadata = Inr key"
    and "matching (kv e) key = [kv0]"
    and "Spec metadata = Some spec"
    and "Marshal p spec = Inr val"
    and "Unmarshal p (Kind metadata) (kv_Value kv0) = Inr existingVal"
    and "Equal p metadata existingVal"
  shows "update p interfere e metadata = (None, e, [])"
  using assms by (simp add: update_def kv_Get_def)

lemma filter_map_key:
  "filter (\<lambda>r. kv_Key r = key) (map (\<lambda>x. if kv_Key x = key then f x else x) xs)
     = map f (filter (\<lambda>r. kv_Key r = key) xs)"
  if "\<And>x. kv_Key (f x) = kv_Key x"
  using that by (induction xs) simp_all

lemma matching_store_put:
  "matching (store_put s key val) key =
     (if matching s key = []
      then [\<lparr>kv_Key = key, kv_CreateRevision = revision s + 1, kv_ModRevision = revision s + 1,
              kv_Version = 1, kv_Value = val\<rparr>]
      else map (\<lambda>x. x\<lparr>kv_ModRevision := revision s + 1, kv_Version := kv_Version x + 1,
                       kv_Value := val\<rparr>) (matching s key))"
  by (simp add: matching_def store_put_def Let_def filter_map_key)

lemma key_ModRevision_single: "matching s key = [kv0] \<Longrightarrow> key_ModRevision s key = kv_ModRevision kv0"
  by (simp add: key_ModRevision_def)

lemma update_present_differs:
  assumes "Metadata_Key metadata = Inr key"
    and "matching (kv e) key = [kv0]"
    and "Spec metadata = Some spec"
    and "Marshal p spec = Inr val"
    and "Unmarshal p (Kind metadata) (kv_Value kv0) = Inr existingVal"
    and "\<not> Equal p metadata existingVal"
  shows "update p interfere e metadata =
     (if key_ModRevision (interfere (kv e)) key = kv_ModRevision kv0
      then (None, e\<lparr>kv := store_put (interfere (kv e)) key val\<rparr>, notifyUpdate e metadata)
      else (Some ErrConcurrentModification, e\<lparr>kv := interfere (kv e)\<rparr>, []))"
  using assms by (simp add: update_def kv_Get_def kv_Txn_If_ModRevision_Then_Put_def)

lemma update_insert:
  assumes "Metadata_Key metadata = Inr key"
    and "matching (kv e) key = []"
    and "Spec metadata = Some spec"
    and "Marshal p spec = Inr val"
  shows "update p interfere e metadata =
     (None, e\<lparr>kv := store_put (interfere (kv e)) key val\<rparr>, notifyUpdate e metadata)"
  using assms by (simp add: update_def kv_Get_def kv_Put_def)

lemma update_twice:
  assumes key: "Metadata_Key metadata = Inr key"
    and spec: "Spec metadata = Some spec"
    and enc: "Marshal p spec = Inr val"
    and dec: "Unmarshal p (Kind metadata) val = Inr decoded"
    and eq: "Equal p metadata decoded"
    and first: "update p (\<lambda>s. s) e metadata = (None, e1, calls)"
  shows "update p interfere e1 metadata = (None, e1, [])"
proof (cases "matching (kv e) key")
  case Nil
  from first have e1: "e1 = e\<lparr>kv := store_put (kv e) key val\<rparr>"
    by (simp add: update_insert [OF key Nil spec enc])
  have m: "matching (kv e1) key =
      [\<lparr>kv_Key = key, kv_CreateRevision = revision (kv e) + 1,
        kv_ModRevision = revision (kv e) + 1, kv_Version = 1, kv_Value = val\<rparr>]"
    by (simp add: e1 matching_store_put Nil)
  show ?thesis
    by (rule update_equal_noop [OF key m spec enc _ eq]) (simp add: dec)
next
  case (Cons kv0 rest)
  show ?thesis
  proof (cases rest)
    case (Cons kv1 rest')
    with first key \<open>matching (kv e) key = kv0 # rest\<close> show ?thesis
      by (simp add: update_def kv_Get_def)
  next
    case Nil
    with Cons have one: "matching (kv e) key = [kv0]" by simp
    show ?thesis
    proof (cases "Unmarshal p (Kind metadata) (kv_Value kv0)")
      case (Inl err)
      with first key one spec enc show ?thesis
        by (simp add: update_def kv_Get_def)
    next
      case (Inr existingVal)
      show ?thesis
      proof (cases "Equal p metadata existingVal")
        case True
        from first have "e1 = e"
          by (simp add: update_equal_noop [OF key one spec enc Inr True])
        then show ?thesis
          by (simp add: update_equal_noop [OF key one spec enc Inr True])
      next
        case False
        from first have e1: "e1 = e\<lparr>kv := store_put (kv e) key val\<rparr>"
          by (simp add: update_present_differs [OF key one spec enc Inr False]
                key_ModRevision_single [OF one])
        have m: "matching (kv e1) key =
            [kv0\<lparr>kv_ModRevision := revision (kv e) + 1, kv_Version := kv_Version kv0 + 1,
                 kv_Value := val\<rparr>]"
          by (simp add: e1 matching_store_put one)
        show ?thesis
          by (rule update_equal_noop [OF key m spec enc _ eq]) (simp add: dec)
      qed
    qed
  qed
qed

lemma example_update_first:
  "update example_proto (\<lambda>s. s) example_registry example_stream
     = (None, example_registry\<lparr>kv := store_put (kv example_registry) example_key [7]\<rparr>,
        [OnAddOrUpdate ''gs'' example_stream, OnAddOrUpdate ''s'' example_stream])"
  using update_present_differs [OF example_stream_key example_matching example_stream_spec
          example_stream_marshal example_unmarshal, of "\<lambda>s. s"]
  by (simp add: example_stream_equal example_record_value example_notify
        key_ModRevision_single [OF example_matching])

text \<open>
  Claim C10.  When the read at the start of \<^verbatim>\<open>update\<close> finds more than one record under
  the key, \<^verbatim>\<open>update\<close> fails with \<^verbatim>\<open>ErrUnexpectedNumberOfEntities\<close> whatever the payload
  and the codec are (nothing has been marshalled yet), the store is as it was and no
  handler is called.
\<close>

theorem update_unexpected_number:
  assumes "Metadata_Key metadata = Inr key" and "1 < length (matching (kv e) key)"
  shows "update p interfere e metadata = (Some ErrUnexpectedNumberOfEntities, e, [])"
  using assms by (simp add: update_def kv_Get_def)

theorem update_unexpected_number_witness:
  "Metadata_Key example_stream = Inr example_key
   \<and> 1 < length (matching (kv doubled_registry) example_key)
   \<and> update example_proto example_writer doubled_registry example_stream
     = (Some ErrUnexpectedNumberOfEntities, doubled_registry, [])"
proof -
  have h: "1 < length (matching (kv doubled_registry) example_key)"
    by (simp add: matching_def doubled_registry_def example_record_def)
  show ?thesis
    using example_stream_key h update_unexpected_number [OF example_stream_key h] by simp
qed

text \<open>
  Claim C1.  When the key holds one record whose decoded value is not equal to the new
  entity, the outcome of \<^verbatim>\<open>update\<close> is decided by one conditional write on the store as
  the concurrent writers left it: if the mod revision of the key there is still the one
  read at the start, the value is put and the handlers are notified; otherwise
  \<^verbatim>\<open>update\<close> fails with \<^verbatim>\<open>ErrConcurrentModification\<close>, the store is exactly what the
  concurrent writers left, and no handler is called.
\<close>

theorem update_compare_and_swap:
  assumes "Metadata_Key metadata = Inr key"
    and "matching (kv e) key = [kv0]"
    and "Spec metadata = Some spec"
    and "Marshal p spec = Inr val"
    and "Unmarshal p (Kind metadata) (kv_Value kv0) = Inr existingVal"
    and "\<not> Equal p metadata existingVal"
  shows "key_ModRevision (kv e) key = kv_ModRevision kv0
     \<and> update p interfere e metadata =
         (if key_ModRevision (interfere (kv e)) key = kv_ModRevision kv0
          then (None, e\<lparr>kv := store_put (interfere (kv e)) key val\<rparr>, notifyUpdate e metadata)
          else (Some ErrConcurrentModification, e\<lparr>kv := interfere (kv e)\<rparr>, []))"
  using update_present_differs [OF assms] key_ModRevision_single [OF assms(2)] by simp

theorem update_compare_and_swap_witness:
  "update example_proto example_writer example_registry example_stream
     = (Some ErrConcurrentModification,
        example_registry\<lparr>kv := example_writer (kv example_registry)\<rparr>, [])
   \<and> update example_proto (\<lambda>s. s) example_registry example_stream
     = (None, example_registry\<lparr>kv := store_put (kv example_registry) example_key [7]\<rparr>,
        [OnAddOrUpdate ''gs'' example_stream, OnAddOrUpdate ''s'' example_stream])"
proof -
  have differs: "\<not> Equal example_proto example_stream
      \<lparr>GetMetadata = Some \<lparr>md_Group = [], md_Name = [], md_Id = 0,
                            md_CreateRevision = 0, md_ModRevision = 0\<rparr>,
       Fields = kv_Value example_record\<rparr>"
    by (simp add: example_stream_equal example_record_value)
  note cas = update_compare_and_swap [OF example_stream_key example_matching
      example_stream_spec example_stream_marshal example_unmarshal differs]
  have conflict: "key_ModRevision (example_writer (kv example_registry)) example_key
      \<noteq> kv_ModRevision example_record"
    by (simp add: key_ModRevision_def example_writer_def matching_store_put example_matching)
       (simp add: example_record_def example_registry_def)
  have quiet: "key_ModRevision (kv example_registry) example_key = kv_ModRevision example_record"
    by (simp add: key_ModRevision_def example_matching)
  show ?thesis
    using cas [of example_writer] cas [of "\<lambda>s. s"] conflict quiet
    by (simp add: example_notify)
qed

text \<open>
  Two updates of one key that both read the same record: the one whose transaction
  commits first succeeds, and the other one, committing on the store the first one
  wrote, fails and leaves that store as it is.  (The new revision of the store is not
  the mod revision that both have read; in etcd no stored revision is ahead of the
  store's.)
\<close>

lemma concurrent_updates_one_wins:
  assumes key1: "Metadata_Key metadata1 = Inr key" and key2: "Metadata_Key metadata2 = Inr key"
    and one: "matching (kv e) key = [kv0]"
    and fresh: "kv_ModRevision kv0 \<noteq> revision (kv e) + 1"
    and spec1: "Spec metadata1 = Some spec1" and enc1: "Marshal p spec1 = Inr val1"
    and spec2: "Spec metadata2 = Some spec2" and enc2: "Marshal p spec2 = Inr val2"
    and dec1: "Unmarshal p (Kind metadata1) (kv_Value kv0) = Inr existing1"
    and dec2: "Unmarshal p (Kind metadata2) (kv_Value kv0) = Inr existing2"
    and neq1: "\<not> Equal p metadata1 existing1" and neq2: "\<not> Equal p metadata2 existing2"
  shows "update p (\<lambda>s. s) e metadata1
           = (None, e\<lparr>kv := store_put (kv e) key val1\<rparr>, notifyUpdate e metadata1)
         \<and> update p (\<lambda>s. store_put s key val1) e metadata2
           = (Some ErrConcurrentModification, e\<lparr>kv := store_put (kv e) key val1\<rparr>, [])"
proof -
  have "key_ModRevision (store_put (kv e) key val1) key = revision (kv e) + 1"
    by (simp add: key_ModRevision_def matching_store_put one)
  with fresh have lost: "key_ModRevision (store_put (kv e) key val1) key \<noteq> kv_ModRevision kv0"
    by simp
  show ?thesis
    using update_present_differs [OF key1 one spec1 enc1 dec1 neq1, of "\<lambda>s. s"]
      update_present_differs [OF key2 one spec2 enc2 dec2 neq2, of "\<lambda>s. store_put s key val1"]
      lost key_ModRevision_single [OF one]
    by simp
qed

text \<open>
  Claim C2.  When the key holds one record whose decoded value is equal to the new
  entity, \<^verbatim>\<open>update\<close> returns nil, leaves the store as it was (value, revisions and all)
  and calls no handler.  Hence, with a codec that decodes what it encoded to an equal
  value, an \<^verbatim>\<open>update\<close> that follows a successful \<^verbatim>\<open>update\<close> of the same entity writes
  nothing and notifies nobody.
\<close>

theorem update_equal_is_noop:
  assumes "Metadata_Key metadata = Inr key"
    and "Spec metadata = Some spec"
    and "Marshal p spec = Inr val"
  shows "(matching (kv e) key = [kv0] \<and> Unmarshal p (Kind metadata) (kv_Value kv0) = Inr existingVal
            \<and> Equal p metadata existingVal
          \<longrightarrow> update p interfere e metadata = (None, e, []))
     \<and> (Unmarshal p (Kind metadata) val = Inr decoded \<and> Equal p metadata decoded
            \<and> update p (\<lambda>s. s) e metadata = (None, e1, calls)
          \<longrightarrow> update p interfere e1 metadata = (None, e1, []))"
  using update_equal_noop [OF assms(1) _ assms(2,3)] update_twice [OF assms]
  by blast

theorem update_equal_is_noop_witness:
  "update example_proto example_writer example_registry example_same
     = (None, example_registry, [])
   \<and> update example_proto (\<lambda>s. s) example_registry example_stream
     = (None, example_registry\<lparr>kv := store_put (kv example_registry) example_key [7]\<rparr>,
        [OnAddOrUpdate ''gs'' example_stream, OnAddOrUpdate ''s'' example_stream])
   \<and> update example_proto (\<lambda>s. s)
        (example_registry\<lparr>kv := store_put (kv example_registry) example_key [7]\<rparr>) example_stream
     = (None, example_registry\<lparr>kv := store_put (kv example_registry) example_key [7]\<rparr>, [])"
proof -
  let ?dec = "\<lambda>bs. \<lparr>GetMetadata = Some \<lparr>md_Group = [], md_Name = [], md_Id = 0,
                         md_CreateRevision = 0, md_ModRevision = 0\<rparr>, Fields = bs\<rparr>"
  have s2: "Spec example_same = Some \<lparr>GetMetadata = Some example_id, Fields = [1, 2, 3]\<rparr>"
    by (simp add: example_same_def)
  have s3: "Marshal example_proto \<lparr>GetMetadata = Some example_id, Fields = [1, 2, 3]\<rparr>
      = Inr [1, 2, 3]"
    by (simp add: example_proto_def)
  have same: "matching (kv example_registry) example_key = [example_record]
      \<and> Unmarshal example_proto (Kind example_same) (kv_Value example_record)
          = Inr (?dec (kv_Value example_record))
      \<and> Equal example_proto example_same (?dec (kv_Value example_record))"
    by (simp add: example_matching example_unmarshal example_same_equal example_record_value)
  have again: "Unmarshal example_proto (Kind example_stream) [7] = Inr (?dec [7])
      \<and> Equal example_proto example_stream (?dec [7])
      \<and> update example_proto (\<lambda>s. s) example_registry example_stream
          = (None, example_registry\<lparr>kv := store_put (kv example_registry) example_key [7]\<rparr>,
             [OnAddOrUpdate ''gs'' example_stream, OnAddOrUpdate ''s'' example_stream])"
    by (simp add: example_unmarshal example_stream_equal example_update_first)
  note noop = update_equal_is_noop [OF example_same_key s2 s3,
      where interfere = example_writer, THEN conjunct1, THEN mp, OF same]
  note second = update_equal_is_noop [OF example_stream_key example_stream_spec
      example_stream_marshal, where interfere = "\<lambda>s. s", THEN conjunct2, THEN mp, OF again]
  show ?thesis
    using noop second example_update_first by simp
qed

subsection \<open>Delete\<close>

lemma delete_absent:
  assumes "Metadata_Key metadata = Inr key" and "matching (kv e) key = []"
  shows "delete p e metadata = (Inr False, e, [])"
  using assms by (simp add: delete_def kv_Delete_def)

lemma DeleteGroup_absent:
  assumes "matching (kv e) (formatGroupKey grp) = []"
  shows "DeleteGroup p e grp = (Inl (Wrap ErrEntityNotFound grp), e, [])"
  using assms by (simp add: DeleteGroup_def GetGroup_def get_def kv_Get_def)

lemma Metadata_Key_entity:
  "Metadata_Key \<lparr>Kind = KindStream, Name = GetName_md md, Group = GetGroup_md md, Spec = sp\<rparr>
     = Inr (formatStreamKey md)"
  "Metadata_Key \<lparr>Kind = KindMeasure, Name = GetName_md md, Group = GetGroup_md md, Spec = sp\<rparr>
     = Inr (formatMeasureKey md)"
  "Metadata_Key \<lparr>Kind = KindIndexRule, Name = GetName_md md, Group = GetGroup_md md, Spec = sp\<rparr>
     = Inr (formatIndexRuleKey md)"
  "Metadata_Key \<lparr>Kind = KindIndexRuleBinding, Name = GetName_md md, Group = GetGroup_md md,
       Spec = sp\<rparr>
     = Inr (formatIndexRuleBindingKey md)"
  by (simp_all add: Metadata_Key_def KindGroup_def KindStream_def KindMeasure_def
        KindIndexRule_def KindIndexRuleBinding_def formatStreamKey_def formatMeasureKey_def
        formatIndexRuleKey_def formatIndexRuleBindingKey_def formatKey_def GetName_md_def
        GetGroup_md_def)

text \<open>
  Claim C4, as amended.  For a stream, measure, index rule or index-rule binding whose
  key is absent, the delete operation returns "not deleted" without an error, leaves
  the registry as it was and calls no handler.  \<^verbatim>\<open>DeleteGroup\<close> of an absent group
  returns "not deleted" together with \<^verbatim>\<open>ErrEntityNotFound\<close> wrapped with the group name;
  it too leaves the registry as it was and calls no handler.
\<close>

theorem delete_absent_key:
  "(matching (kv e) (formatStreamKey md) = [] \<longrightarrow> DeleteStream p e md = (Inr False, e, []))
   \<and> (matching (kv e) (formatMeasureKey md) = [] \<longrightarrow> DeleteMeasure p e md = (Inr False, e, []))
   \<and> (matching (kv e) (formatIndexRuleKey md) = []
        \<longrightarrow> DeleteIndexRule p e md = (Inr False, e, []))
   \<and> (matching (kv e) (formatIndexRuleBindingKey md) = []
        \<longrightarrow> DeleteIndexRuleBinding p e md = (Inr False, e, []))
   \<and> (matching (kv e) (formatGroupKey grp) = []
        \<longrightarrow> DeleteGroup p e grp = (Inl (Wrap ErrEntityNotFound grp), e, []))"
  by (simp add: DeleteStream_def DeleteMeasure_def DeleteIndexRule_def
        DeleteIndexRuleBinding_def delete_absent [OF Metadata_Key_entity(1)]
        delete_absent [OF Metadata_Key_entity(2)] delete_absent [OF Metadata_Key_entity(3)]
        delete_absent [OF Metadata_Key_entity(4)] DeleteGroup_absent)

theorem delete_absent_key_witness:
  "DeleteStream example_proto empty_registry (Some example_id) = (Inr False, empty_registry, [])
   \<and> DeleteMeasure example_proto empty_registry (Some example_id) = (Inr False, empty_registry, [])
   \<and> DeleteIndexRule example_proto empty_registry (Some example_id)
       = (Inr False, empty_registry, [])
   \<and> DeleteIndexRuleBinding example_proto empty_registry (Some example_id)
       = (Inr False, empty_registry, [])
   \<and> DeleteGroup example_proto empty_registry ''default''
       = (Inl (Wrap ErrEntityNotFound ''default''), empty_registry, [])"
proof -
  have a: "matching (kv empty_registry) k = []" for k
    by (simp add: matching_def empty_registry_def)
  show ?thesis
    using delete_absent_key [where e = empty_registry and md = "Some example_id"
            and p = example_proto and grp = "''default''"]
    by (simp add: a)
qed

text \<open>
  The claim as first stated also promised "no error" for a group: on the empty store
  \<^verbatim>\<open>DeleteGroup\<close> returns an error.
\<close>

theorem DeleteGroup_absent_counterexample:
  "matching (kv empty_registry) (formatGroupKey ''default'') = []
   \<and> fst (DeleteGroup example_proto empty_registry ''default'') = Inl (Wrap ErrEntityNotFound ''default'')
   \<and> fst (DeleteGroup example_proto empty_registry ''default'') \<noteq> Inr False"
  by (simp add: DeleteGroup_def GetGroup_def get_def kv_Get_def matching_def empty_registry_def)

end
